theory Spec2Isabelle
  imports Complex_Main "HOL-Library.List_Lexorder" "HOL-Library.Char_ord"
begin

section \<open>FindImuWorld: rotation conversion\<close>

text \<open>
  The script works on numpy arrays of double-precision numbers. The embedding takes the
  numbers to be real: \<open>np.sqrt\<close>, \<open>np.arcsin\<close>, \<open>np.sin\<close>, \<open>np.cos\<close> are the real
  functions, rounding is not modelled, and there are no signed zeros, infinities or NaN.
  A division whose divisor is zero is an error value of the model (numpy would go on with
  inf or nan and a runtime warning), so that "every division is guarded" is a statement
  about the result type.
\<close>

datatype error = DivisionByZero | FileNotFoundError | KeyError | ValueError | IndexError

text \<open>A 3x3 \<open>np.array\<close>; \<open>mIJ R\<close> is \<open>R[I, J]\<close>.\<close>

datatype mat3 = Mat3 (m00: real) (m01: real) (m02: real)
                     (m10: real) (m11: real) (m12: real)
                     (m20: real) (m21: real) (m22: real)

type_synonym quat = "real \<times> real \<times> real \<times> real"

definition eye3 :: mat3 where
  "eye3 = Mat3 1 0 0  0 1 0  0 0 1"

text \<open>The operator \<open>@\<close> on two 3x3 arrays.\<close>

definition matmul :: "mat3 \<Rightarrow> mat3 \<Rightarrow> mat3" where
  "matmul A B = Mat3
     (m00 A * m00 B + m01 A * m10 B + m02 A * m20 B)
     (m00 A * m01 B + m01 A * m11 B + m02 A * m21 B)
     (m00 A * m02 B + m01 A * m12 B + m02 A * m22 B)
     (m10 A * m00 B + m11 A * m10 B + m12 A * m20 B)
     (m10 A * m01 B + m11 A * m11 B + m12 A * m21 B)
     (m10 A * m02 B + m11 A * m12 B + m12 A * m22 B)
     (m20 A * m00 B + m21 A * m10 B + m22 A * m20 B)
     (m20 A * m01 B + m21 A * m11 B + m22 A * m21 B)
     (m20 A * m02 B + m21 A * m12 B + m22 A * m22 B)"

definition transpose3 :: "mat3 \<Rightarrow> mat3" where
  "transpose3 A = Mat3 (m00 A) (m10 A) (m20 A)
                       (m01 A) (m11 A) (m21 A)
                       (m02 A) (m12 A) (m22 A)"

text \<open>\<open>np.linalg.det\<close> of a 3x3 array, by expansion along the first row.\<close>

definition det3 :: "mat3 \<Rightarrow> real" where
  "det3 A = m00 A * (m11 A * m22 A - m12 A * m21 A)
          - m01 A * (m10 A * m22 A - m12 A * m20 A)
          + m02 A * (m10 A * m21 A - m11 A * m20 A)"

definition mat_sub :: "mat3 \<Rightarrow> mat3 \<Rightarrow> mat3" where
  "mat_sub A B = Mat3 (m00 A - m00 B) (m01 A - m01 B) (m02 A - m02 B)
                      (m10 A - m10 B) (m11 A - m11 B) (m12 A - m12 B)
                      (m20 A - m20 B) (m21 A - m21 B) (m22 A - m22 B)"

text \<open>\<open>np.linalg.norm(A, 'fro')\<close>.\<close>

definition frobenius :: "mat3 \<Rightarrow> real" where
  "frobenius A = sqrt ((m00 A)\<^sup>2 + (m01 A)\<^sup>2 + (m02 A)\<^sup>2
                     + (m10 A)\<^sup>2 + (m11 A)\<^sup>2 + (m12 A)\<^sup>2
                     + (m20 A)\<^sup>2 + (m21 A)\<^sup>2 + (m22 A)\<^sup>2)"

text \<open>
  \<open>np.arctan2(y, x)\<close>: the angle in \<open>(-pi, pi]\<close> of the point \<open>(x, y)\<close>, and 0 at the
  origin.
\<close>

definition arctan2 :: "real \<Rightarrow> real \<Rightarrow> real" where
  "arctan2 y x =
     (if 0 < x then arctan (y / x)
      else if x < 0 then (if 0 \<le> y then arctan (y / x) + pi else arctan (y / x) - pi)
      else if 0 < y then pi / 2
      else if y < 0 then - (pi / 2)
      else 0)"

text \<open>\<open>np.copysign(a, b)\<close>: the magnitude of \<open>a\<close> with the sign of \<open>b\<close>.\<close>

definition copysign :: "real \<Rightarrow> real \<Rightarrow> real" where
  "copysign a b = (if b < 0 then - \<bar>a\<bar> else \<bar>a\<bar>)"

text \<open>Element-wise division of a quaternion by a scalar.\<close>

definition qdiv :: "quat \<Rightarrow> real \<Rightarrow> error + quat" where
  "qdiv q n = (case q of (w, x, y, z) \<Rightarrow>
     if n = 0 then Inl DivisionByZero else Inr (w / n, x / n, y / n, z / n))"

definition quat_to_rotation_matrix :: "quat \<Rightarrow> error + mat3" where
  "quat_to_rotation_matrix q = (case q of (w, x, y, z) \<Rightarrow>
     let norm = sqrt (w * w + x * x + y * y + z * z) in
     if norm < 1 / 10 ^ 12 then Inr eye3
     else (case qdiv (w, x, y, z) norm of
             Inl e \<Rightarrow> Inl e
           | Inr (w, x, y, z) \<Rightarrow> Inr (Mat3
               (1 - 2 * (y * y + z * z)) (2 * (x * y - w * z)) (2 * (x * z + w * y))
               (2 * (x * y + w * z)) (1 - 2 * (x * x + z * z)) (2 * (y * z - w * x))
               (2 * (x * z - w * y)) (2 * (y * z + w * x)) (1 - 2 * (x * x + y * y)))))"

definition rotation_matrix_to_rpy_extrinsic :: "mat3 \<Rightarrow> real \<times> real \<times> real" where
  "rotation_matrix_to_rpy_extrinsic R =
     (let sin_pitch = - m20 R in
      if \<bar>sin_pitch\<bar> \<ge> 1 then
        (let pitch = copysign (pi / 2) sin_pitch in
         if sin_pitch < 0 then (0, pitch, arctan2 (- m01 R) (m11 R))
         else (0, pitch, arctan2 (m01 R) (m11 R)))
      else (arctan2 (m21 R) (m22 R), arcsin sin_pitch, arctan2 (m10 R) (m00 R)))"

definition rotation_matrix_to_rpy_intrinsic :: "mat3 \<Rightarrow> real \<times> real \<times> real" where
  "rotation_matrix_to_rpy_intrinsic R =
     (let sin_pitch = m20 R in
      if \<bar>sin_pitch\<bar> \<ge> 1 then
        (let pitch = copysign (pi / 2) sin_pitch in
         if sin_pitch > 0 then (0, pitch, arctan2 (m01 R) (m11 R))
         else (0, pitch, arctan2 (- m01 R) (m11 R)))
      else (arctan2 (- m21 R) (m22 R), arcsin sin_pitch, arctan2 (- m10 R) (m00 R)))"

definition rpy_to_rotation_matrix :: "real \<Rightarrow> real \<Rightarrow> real \<Rightarrow> mat3" where
  "rpy_to_rotation_matrix roll pitch yaw =
     (let Rx = Mat3 1 0 0
                    0 (cos roll) (- sin roll)
                    0 (sin roll) (cos roll);
          Ry = Mat3 (cos pitch) 0 (sin pitch)
                    0 1 0
                    (- sin pitch) 0 (cos pitch);
          Rz = Mat3 (cos yaw) (- sin yaw) 0
                    (sin yaw) (cos yaw) 0
                    0 0 1
      in matmul (matmul Rz Ry) Rx)"

text \<open>
  What the specification calls a proper rotation: the transpose times the matrix is the
  identity, and the determinant is 1.
\<close>

definition orthogonal3 :: "mat3 \<Rightarrow> bool" where
  "orthogonal3 A \<longleftrightarrow> matmul (transpose3 A) A = eye3"

definition proper_rotation :: "mat3 \<Rightarrow> bool" where
  "proper_rotation R \<longleftrightarrow> matmul (transpose3 R) R = eye3 \<and> det3 R = 1"

text \<open>The adjugate and the scalar multiple of a matrix, used in the proofs only.\<close>

definition adj3 :: "mat3 \<Rightarrow> mat3" where
  "adj3 A = Mat3
     (m11 A * m22 A - m12 A * m21 A) (m02 A * m21 A - m01 A * m22 A) (m01 A * m12 A - m02 A * m11 A)
     (m12 A * m20 A - m10 A * m22 A) (m00 A * m22 A - m02 A * m20 A) (m02 A * m10 A - m00 A * m12 A)
     (m10 A * m21 A - m11 A * m20 A) (m01 A * m20 A - m00 A * m21 A) (m00 A * m11 A - m01 A * m10 A)"

definition scale3 :: "real \<Rightarrow> mat3 \<Rightarrow> mat3" where
  "scale3 k A = Mat3 (k * m00 A) (k * m01 A) (k * m02 A)
                     (k * m10 A) (k * m11 A) (k * m12 A)
                     (k * m20 A) (k * m21 A) (k * m22 A)"

text \<open>
  The matrix of the extrinsic self-check of \<open>compute_mean_heading_per_node\<close>: the angles
  of \<open>R\<close> turned back into a matrix.
\<close>

definition reconstruct_extrinsic :: "mat3 \<Rightarrow> mat3" where
  "reconstruct_extrinsic R =
     (case rotation_matrix_to_rpy_extrinsic R of
        (roll, pitch, yaw) \<Rightarrow> rpy_to_rotation_matrix roll pitch yaw)"

section \<open>FindImuWorld: mean rotation\<close>

text \<open>An exception of an earlier step ends the function; otherwise the next step runs.\<close>

definition and_then :: "error + 'a \<Rightarrow> ('a \<Rightarrow> error + 'b) \<Rightarrow> error + 'b" where
  "and_then r f = (case r of Inl e \<Rightarrow> Inl e | Inr v \<Rightarrow> f v)"

text \<open>\<open>np.linalg.norm\<close>, \<open>np.dot\<close>, unary minus and \<open>+\<close> on arrays of shape (4,).\<close>

definition norm4 :: "quat \<Rightarrow> real" where
  "norm4 q = (case q of (w, x, y, z) \<Rightarrow> sqrt (w * w + x * x + y * y + z * z))"

definition dot4 :: "quat \<Rightarrow> quat \<Rightarrow> real" where
  "dot4 p q = (case p of (a, b, c, d) \<Rightarrow> case q of (w, x, y, z) \<Rightarrow>
     a * w + b * x + c * y + d * z)"

definition neg4 :: "quat \<Rightarrow> quat" where
  "neg4 q = (case q of (w, x, y, z) \<Rightarrow> (- w, - x, - y, - z))"

definition add4 :: "quat \<Rightarrow> quat \<Rightarrow> quat" where
  "add4 p q = (case p of (a, b, c, d) \<Rightarrow> case q of (w, x, y, z) \<Rightarrow>
     (a + w, b + x, c + y, d + z))"

text \<open>
  The body of the loop of \<open>compute_mean_rotation\<close> at index \<open>i\<close>: row \<open>i\<close> is divided by
  its norm when the norm is positive, then negated when its dot product with \<open>q0\<close> is
  negative. Both assignments write row \<open>i\<close> of \<open>qs\<close>. The loop runs \<open>i\<close> over
  \<open>range(len(qs))\<close>, so \<open>qs ! i\<close> is always in range.
\<close>

definition align_step :: "quat \<Rightarrow> quat list \<Rightarrow> nat \<Rightarrow> error + quat list" where
  "align_step q0 qs i =
     (let n = norm4 (qs ! i) in
      and_then (if n > 0 then and_then (qdiv (qs ! i) n) (\<lambda>q. Inr (qs[i := q]))
                else Inr qs)
        (\<lambda>qs. if dot4 (qs ! i) q0 < 0 then Inr (qs[i := neg4 (qs ! i)]) else Inr qs))"

text \<open>\<open>align_loop q0 i k qs\<close> runs the \<open>k\<close> iterations that start at index \<open>i\<close>.\<close>

fun align_loop :: "quat \<Rightarrow> nat \<Rightarrow> nat \<Rightarrow> quat list \<Rightarrow> error + quat list" where
  "align_loop q0 i 0 qs = Inr qs"
| "align_loop q0 i (Suc k) qs =
     and_then (align_step q0 qs i) (\<lambda>qs. align_loop q0 (Suc i) k qs)"

text \<open>\<open>np.mean(qs, axis=0)\<close>: the sum of the rows divided by their number.\<close>

definition mean4 :: "quat list \<Rightarrow> error + quat" where
  "mean4 qs = qdiv (foldl add4 (0, 0, 0, 0) qs) (real (length qs))"

text \<open>
  \<open>np.linalg.svd\<close> is numpy's, not the script's: it is a parameter \<open>svd\<close> of the model,
  giving \<open>(U, S, Vt)\<close> for a matrix. Its contract at a matrix \<open>M\<close>: \<open>U\<close> and \<open>Vt\<close> are
  orthogonal, the singular values are non-negative and in descending order, and
  \<open>M = U diag(S) Vt\<close>.
\<close>

type_synonym svd_fun = "mat3 \<Rightarrow> mat3 \<times> (real \<times> real \<times> real) \<times> mat3"

definition diag3 :: "real \<times> real \<times> real \<Rightarrow> mat3" where
  "diag3 s = (case s of (s1, s2, s3) \<Rightarrow> Mat3 s1 0 0  0 s2 0  0 0 s3)"

definition is_svd :: "mat3 \<Rightarrow> mat3 \<times> (real \<times> real \<times> real) \<times> mat3 \<Rightarrow> bool" where
  "is_svd M r = (case r of (U, (s1, s2, s3), Vt) \<Rightarrow>
     orthogonal3 U \<and> orthogonal3 Vt \<and> 0 \<le> s3 \<and> s3 \<le> s2 \<and> s2 \<le> s1
     \<and> M = matmul (matmul U (diag3 (s1, s2, s3))) Vt)"

text \<open>A decomposition of an orthogonal matrix \<open>M\<close>, used in the witnesses: \<open>M = M I I\<close>.\<close>

definition svd_of_orthogonal :: svd_fun where
  "svd_of_orthogonal M = (M, (1, 1, 1), eye3)"

text \<open>\<open>U[:, -1] *= -1\<close>.\<close>

definition negate_last_column :: "mat3 \<Rightarrow> mat3" where
  "negate_last_column U = Mat3 (m00 U) (m01 U) (- m02 U)
                               (m10 U) (m11 U) (- m12 U)
                               (m20 U) (m21 U) (- m22 U)"

text \<open>
  \<open>compute_mean_rotation\<close> in two parts. \<open>mean_quaternion_matrix\<close> is the function from
  \<open>q0 = qs[0]\<close> to the matrix \<open>R\<close> of the mean quaternion, for a non-empty \<open>qs\<close>;
  \<open>orthonormalize\<close> is the polar decomposition that ends it. When the first row has
  norm 0, \<open>q0\<close> stays a view of that row, which the loop leaves as it is (no division, dot
  product 0), so taking \<open>q0\<close> by value loses nothing.
\<close>

definition mean_quaternion_matrix :: "quat list \<Rightarrow> error + mat3" where
  "mean_quaternion_matrix qs =
     (let q0 = hd qs; n0 = norm4 q0 in
      and_then (if n0 > 0 then qdiv q0 n0 else Inr q0) (\<lambda>q0.
      and_then (align_loop q0 0 (length qs) qs) (\<lambda>qs.
      and_then (mean4 qs) (\<lambda>q_mean.
      let n_mean = norm4 q_mean in
      if n_mean < 1 / 10 ^ 12 then Inr eye3
      else and_then (qdiv q_mean n_mean) (\<lambda>q_mean. quat_to_rotation_matrix q_mean)))))"

definition orthonormalize :: "svd_fun \<Rightarrow> mat3 \<Rightarrow> mat3" where
  "orthonormalize svd R =
     (case svd R of (U, S, Vt) \<Rightarrow>
        let R_ortho = matmul U Vt in
        if det3 R_ortho < 0 then matmul (negate_last_column U) Vt else R_ortho)"

definition compute_mean_rotation :: "svd_fun \<Rightarrow> quat list \<Rightarrow> error + mat3" where
  "compute_mean_rotation svd quaternions =
     (let qs = quaternions in
      if qs = [] then Inr eye3
      else and_then (mean_quaternion_matrix qs) (\<lambda>R. Inr (orthonormalize svd R)))"

text \<open>
  Two functions used in the proofs only: what one iteration of the loop does to its row,
  and the matrix of a quaternion as \<open>quat_to_rotation_matrix\<close> writes it, without the
  normalisation.
\<close>

definition align_elem :: "quat \<Rightarrow> quat \<Rightarrow> quat" where
  "align_elem q0 q =
     (let n = norm4 q;
          q1 = (if n > 0 then (case q of (w, x, y, z) \<Rightarrow> (w / n, x / n, y / n, z / n)) else q)
      in if dot4 q1 q0 < 0 then neg4 q1 else q1)"

definition quat_matrix :: "quat \<Rightarrow> mat3" where
  "quat_matrix q = (case q of (w, x, y, z) \<Rightarrow> Mat3
     (1 - 2 * (y * y + z * z)) (2 * (x * y - w * z)) (2 * (x * z + w * y))
     (2 * (x * y + w * z)) (1 - 2 * (x * x + z * z)) (2 * (y * z - w * x))
     (2 * (x * z - w * y)) (2 * (y * z + w * x)) (1 - 2 * (x * x + y * y)))"

section \<open>FindImuWorld: loading the node files\<close>

text \<open>
  Strings are Python's \<open>str\<close> restricted to single-byte characters. A \<open>dict\<close> is an
  association list in insertion order: \<open>dict_set\<close> is \<open>d[k] = v\<close>, which overwrites the
  value of a key already there and appends a new key at the end.
\<close>

fun dict_set :: "('k \<times> 'v) list \<Rightarrow> 'k \<Rightarrow> 'v \<Rightarrow> ('k \<times> 'v) list" where
  "dict_set [] k v = [(k, v)]"
| "dict_set ((k', v') # d) k v = (if k' = k then (k, v) # d else (k', v') # dict_set d k v)"

definition dict_keys :: "('k \<times> 'v) list \<Rightarrow> 'k list" where
  "dict_keys d = map fst d"

text \<open>
  A table as \<open>pd.read_csv\<close> returns it: the columns in order, each a header and its
  numeric cells. A directory is the list of its files, each a name and the table
  \<open>pd.read_csv\<close> reads from it; a file that \<open>pd.read_csv\<close> cannot read (an empty one,
  say) has no place in this model.
\<close>

type_synonym dataframe = "(string \<times> real list) list"

type_synonym directory = "(string \<times> dataframe) list"

text \<open>
  \<open>fnmatch\<close> for the patterns \<open>glob.glob\<close> gets here: \<open>*\<close> stands for any run of
  characters, \<open>?\<close> for one character, every other character for itself.
\<close>

fun glob_match :: "string \<Rightarrow> string \<Rightarrow> bool" where
  "glob_match [] s = (s = [])"
| "glob_match (p # ps) [] = (p = CHR ''*'' \<and> glob_match ps [])"
| "glob_match (p # ps) (c # cs) =
     (if p = CHR ''*'' then glob_match ps (c # cs) \<or> glob_match (p # ps) cs
      else (p = CHR ''?'' \<or> p = c) \<and> glob_match ps cs)"

text \<open>
  \<open>os.path.splitext(name)[0]\<close> for a name without directory separator: the text before
  the last dot, unless only dots stand before it.
\<close>

definition splitext_root :: "string \<Rightarrow> string" where
  "splitext_root p =
     (let root = rev (tl (dropWhile (\<lambda>c. c \<noteq> CHR ''.'') (rev p)))
      in if CHR ''.'' \<in> set p \<and> filter (\<lambda>c. c \<noteq> CHR ''.'') root \<noteq> [] then root else p)"

text \<open>\<open>str.strip()\<close>: the ASCII white space is removed at both ends.\<close>

definition is_space :: "char \<Rightarrow> bool" where
  "is_space c \<longleftrightarrow> c = CHR '' '' \<or> (9 \<le> (of_char c :: nat) \<and> (of_char c :: nat) \<le> 13)
     \<or> (28 \<le> (of_char c :: nat) \<and> (of_char c :: nat) \<le> 31)"

definition strip :: "string \<Rightarrow> string" where
  "strip s = rev (dropWhile is_space (rev (dropWhile is_space s)))"

text \<open>\<open>pd.read_csv(f)\<close>, for a file name of the directory.\<close>

definition read_csv :: "directory \<Rightarrow> string \<Rightarrow> error + dataframe" where
  "read_csv inputs_dir f =
     (case map_of inputs_dir f of None \<Rightarrow> Inl FileNotFoundError | Some df \<Rightarrow> Inr df)"

text \<open>
  The second loop of \<open>load_node_files\<close>. The paths of \<open>files\<close> differ in their base names
  only, so the model keeps the base names.
\<close>

fun load_files :: "directory \<Rightarrow> string list \<Rightarrow> (string \<times> dataframe) list
    \<Rightarrow> error + (string \<times> dataframe) list" where
  "load_files inputs_dir [] node_data = Inr node_data"
| "load_files inputs_dir (f # files) node_data =
     (let basename = f; node_name = splitext_root basename in
      and_then (read_csv inputs_dir f) (\<lambda>df.
        let df = map (\<lambda>(c, cells). (strip c, cells)) df in
        load_files inputs_dir files (dict_set node_data node_name df)))"

definition load_node_files :: "directory \<Rightarrow> error + (string \<times> dataframe) list" where
  "load_node_files inputs_dir =
     (let files = sort (filter (glob_match ''node*.csv'') (map fst inputs_dir)) in
      if files = [] then Inl FileNotFoundError
      else load_files inputs_dir files [])"

section \<open>FindImuWorld: mean heading per node\<close>

definition quat_cols :: "string list" where
  "quat_cols = [''qw'', ''qx'', ''qy'', ''qz'']"

text \<open>\<open>all(col in df.columns for col in quat_cols)\<close>.\<close>

definition has_quat_cols :: "dataframe \<Rightarrow> bool" where
  "has_quat_cols df = list_all (\<lambda>col. col \<in> set (map fst df)) quat_cols"

text \<open>
  \<open>df[cols]\<close> for a list of labels: for each label in turn, every column of the table
  that carries it, so a label that two columns carry gives two columns; a label that no
  column carries is a \<open>KeyError\<close>.
\<close>

definition select_columns :: "dataframe \<Rightarrow> string list \<Rightarrow> error + real list list" where
  "select_columns df cols =
     (if list_all (\<lambda>c. c \<in> set (map fst df)) cols
      then Inr (concat (map (\<lambda>c. map snd (filter (\<lambda>(h, cells). h = c) df)) cols))
      else Inl KeyError)"

text \<open>
  \<open>.to_numpy()\<close>: the rows of the table with these columns, each row as wide as there
  are columns. The columns of a DataFrame have one length.
\<close>

definition to_numpy :: "real list list \<Rightarrow> real list list" where
  "to_numpy columns =
     (if columns = [] then []
      else map (\<lambda>i. map (\<lambda>c. c ! i) columns)
             [0..<fold min (map length columns) (length (hd columns))])"

text \<open>\<open>df[quat_cols].to_numpy()\<close>.\<close>

definition select_quaternions :: "dataframe \<Rightarrow> error + real list list" where
  "select_quaternions df =
     and_then (select_columns df quat_cols) (\<lambda>columns. Inr (to_numpy columns))"

text \<open>
  \<open>compute_mean_rotation\<close> is written for arrays of shape (N, 4), and the model above
  takes its rows as quaternions. The array of \<open>df[quat_cols]\<close> is wider when the table
  repeats a label, and numpy runs the same code on it: \<open>np.linalg.norm\<close>, \<open>np.dot\<close>, the
  division, the negation and \<open>np.mean\<close> work on rows of any width. What follows is the
  function on such rows. It differs from the model above at one place: the unpacking
  \<open>w, x, y, z = q\<close> that opens \<open>quat_to_rotation_matrix\<close> raises \<open>ValueError\<close> unless the
  row has four entries.
\<close>

definition normv :: "real list \<Rightarrow> real" where
  "normv v = sqrt (sum_list (map (\<lambda>x. x * x) v))"

definition dotv :: "real list \<Rightarrow> real list \<Rightarrow> real" where
  "dotv u v = sum_list (map (\<lambda>(a, b). a * b) (zip u v))"

definition vdiv :: "real list \<Rightarrow> real \<Rightarrow> error + real list" where
  "vdiv v n = (if n = 0 then Inl DivisionByZero else Inr (map (\<lambda>x. x / n) v))"

definition align_step_rows :: "real list \<Rightarrow> real list list \<Rightarrow> nat \<Rightarrow> error + real list list" where
  "align_step_rows q0 qs i =
     (let n = normv (qs ! i) in
      and_then (if n > 0 then and_then (vdiv (qs ! i) n) (\<lambda>q. Inr (qs[i := q]))
                else Inr qs)
        (\<lambda>qs. if dotv (qs ! i) q0 < 0 then Inr (qs[i := map uminus (qs ! i)]) else Inr qs))"

fun align_loop_rows :: "real list \<Rightarrow> nat \<Rightarrow> nat \<Rightarrow> real list list \<Rightarrow> error + real list list" where
  "align_loop_rows q0 i 0 qs = Inr qs"
| "align_loop_rows q0 i (Suc k) qs =
     and_then (align_step_rows q0 qs i) (\<lambda>qs. align_loop_rows q0 (Suc i) k qs)"

definition mean_rows :: "real list list \<Rightarrow> error + real list" where
  "mean_rows qs =
     vdiv (foldl (\<lambda>s r. map (\<lambda>(a, b). a + b) (zip s r)) (replicate (length (hd qs)) 0) qs)
       (real (length qs))"

definition quat_to_rotation_matrix_row :: "real list \<Rightarrow> error + mat3" where
  "quat_to_rotation_matrix_row q =
     (case q of [w, x, y, z] \<Rightarrow> quat_to_rotation_matrix (w, x, y, z) | _ \<Rightarrow> Inl ValueError)"

definition quat_of_row :: "real list \<Rightarrow> quat" where
  "quat_of_row r = (r ! 0, r ! 1, r ! 2, r ! 3)"

text \<open>
  \<open>compute_mean_rotation\<close> on an array given by its rows. When every row has four
  entries it is the model above on these quaternions. Otherwise \<open>qs.size == 0\<close> is an
  array without entries, and the rest is lines 156 to 184 on rows.
\<close>

definition compute_mean_rotation_array :: "svd_fun \<Rightarrow> real list list \<Rightarrow> error + mat3" where
  "compute_mean_rotation_array svd quaternions =
     (if list_all (\<lambda>r. length r = 4) quaternions
      then compute_mean_rotation svd (map quat_of_row quaternions)
      else
        let qs = quaternions in
        if concat qs = [] then Inr eye3
        else
          let q0 = hd qs; n0 = normv q0 in
          and_then (if n0 > 0 then vdiv q0 n0 else Inr q0) (\<lambda>q0.
          and_then (align_loop_rows q0 0 (length qs) qs) (\<lambda>qs.
          and_then (mean_rows qs) (\<lambda>q_mean.
          let n_mean = normv q_mean in
          and_then (if n_mean < 1 / 10 ^ 12 then Inr eye3
                    else and_then (vdiv q_mean n_mean)
                           (\<lambda>q_mean. quat_to_rotation_matrix_row q_mean))
            (\<lambda>R. Inr (orthonormalize svd R))))))"

text \<open>The slice \<open>xs[:n]\<close> for an integer \<open>n\<close>.\<close>

definition slice_to :: "int \<Rightarrow> 'a list \<Rightarrow> 'a list" where
  "slice_to n xs = (if n < 0 then take (nat (int (length xs) + n)) xs else take (nat n) xs)"

definition degrees :: "real \<Rightarrow> real" where
  "degrees a = a * 180 / pi"

type_synonym angles = "(real \<times> real \<times> real) \<times> (real \<times> real \<times> real)"

text \<open>
  The body of the loop of \<open>compute_mean_heading_per_node\<close> after the column check: the
  mean rotation of the node and its extrinsic and intrinsic angles in degrees. The
  reconstruction check that follows only prints.
\<close>

definition node_heading :: "svd_fun \<Rightarrow> int \<Rightarrow> dataframe \<Rightarrow> error + mat3 \<times> angles" where
  "node_heading svd n_samples df =
     and_then (select_quaternions df) (\<lambda>quaternions.
       let n_to_take = min n_samples (int (length quaternions));
           quaternions_subset = slice_to n_to_take quaternions
       in and_then (compute_mean_rotation_array svd quaternions_subset) (\<lambda>R_mean.
            case rotation_matrix_to_rpy_extrinsic R_mean of (roll_ext, pitch_ext, yaw_ext) \<Rightarrow>
            case rotation_matrix_to_rpy_intrinsic R_mean of (roll_int, pitch_int, yaw_int) \<Rightarrow>
              Inr (R_mean, ((degrees roll_ext, degrees pitch_ext, degrees yaw_ext),
                            (degrees roll_int, degrees pitch_int, degrees yaw_int)))))"

fun heading_loop :: "svd_fun \<Rightarrow> int \<Rightarrow> (string \<times> dataframe) list
    \<Rightarrow> (string \<times> mat3) list \<times> (string \<times> angles) list
    \<Rightarrow> error + (string \<times> mat3) list \<times> (string \<times> angles) list" where
  "heading_loop svd n_samples [] acc = Inr acc"
| "heading_loop svd n_samples ((node_name, df) # node_data) (mean_rotations, angles_data) =
     (if \<not> has_quat_cols df then
        heading_loop svd n_samples node_data (mean_rotations, angles_data)
      else and_then (node_heading svd n_samples df) (\<lambda>(R_mean, a).
        heading_loop svd n_samples node_data
          (dict_set mean_rotations node_name R_mean, dict_set angles_data node_name a)))"

definition compute_mean_heading_per_node :: "svd_fun \<Rightarrow> (string \<times> dataframe) list \<Rightarrow> int
    \<Rightarrow> error + (string \<times> mat3) list \<times> (string \<times> angles) list" where
  "compute_mean_heading_per_node svd node_data n_samples =
     heading_loop svd n_samples node_data ([], [])"

section \<open>FindImuWorld: plots\<close>

text \<open>\<open>s.split(sep)\<close> for a one-character separator: at least one part, always.\<close>

fun split_on :: "char \<Rightarrow> string \<Rightarrow> string list" where
  "split_on sep [] = [[]]"
| "split_on sep (c # cs) =
     (if c = sep then [] # split_on sep cs
      else (case split_on sep cs of [] \<Rightarrow> [[c]] | p # ps \<Rightarrow> (c # p) # ps))"

text \<open>\<open>parts[i]\<close> for a non-negative index.\<close>

definition index :: "'a list \<Rightarrow> nat \<Rightarrow> error + 'a" where
  "index xs i = (if i < length xs then Inr (xs ! i) else Inl IndexError)"

text \<open>
  \<open>int(s)\<close> for a string: white space around the number is dropped, a sign may lead,
  and the digits may be separated by single underscores; anything else is a
  \<open>ValueError\<close>.
\<close>

definition is_digit :: "char \<Rightarrow> bool" where
  "is_digit c \<longleftrightarrow> (48 \<le> (of_char c :: nat) \<and> (of_char c :: nat) \<le> 57)"

fun digits_ok :: "string \<Rightarrow> bool" where
  "digits_ok [] = False"
| "digits_ok [c] = is_digit c"
| "digits_ok (c # d # cs) =
     (is_digit c \<and> (if d = CHR ''_'' then digits_ok cs else digits_ok (d # cs)))"

definition digits_value :: "string \<Rightarrow> int" where
  "digits_value s =
     foldl (\<lambda>acc c. 10 * acc + (int (of_char c) - 48)) 0 (filter (\<lambda>c. c \<noteq> CHR ''_'') s)"

definition py_int :: "string \<Rightarrow> error + int" where
  "py_int s =
     (let t = strip s;
          (sign, body) = (case t of
                            [] \<Rightarrow> (1, t)
                          | c # r \<Rightarrow> if c = CHR ''-'' then (- 1, r)
                                     else if c = CHR ''+'' then (1, r) else (1, t))
      in if digits_ok body then Inr (sign * digits_value body) else Inl ValueError)"

text \<open>
  \<open>os.path.join(a, b)\<close> on a POSIX system, and the f-strings that name the images.
\<close>

definition os_path_join :: "string \<Rightarrow> string \<Rightarrow> string" where
  "os_path_join a b =
     (if b \<noteq> [] \<and> hd b = CHR ''/'' then b
      else if a = [] \<or> last a = CHR ''/'' then a @ b
      else a @ ''/'' @ b)"

definition group_image_name :: "string \<Rightarrow> string" where
  "group_image_name group_name = ''mean_headings_3d_'' @ group_name @ ''.png''"

definition combined_image_name :: string where
  "combined_image_name = ''mean_headings_3d_combined_node3_to_12.png''"

text \<open>
  A figure as far as the claims go: the nodes whose axes are drawn, in drawing order, and
  the path \<open>plt.savefig\<close> writes.
\<close>

record plot =
  drawn :: "string list"
  save_path :: string

text \<open>
  The body of the \<open>try\<close> in the filter loop of \<open>plot_combined_filtered_nodes\<close>: whether the
  node is kept, or the exception raised.
\<close>

definition node_in_range :: "string \<Rightarrow> error + bool" where
  "node_in_range node_name =
     (let parts = split_on CHR ''_'' (drop 4 node_name) in
      and_then (index parts 0) (\<lambda>p.
      and_then (py_int p) (\<lambda>node_num.
        Inr (3 \<le> node_num \<and> node_num \<le> 12))))"

text \<open>
  The filter loop: \<open>except (ValueError, IndexError): continue\<close> goes on with the next
  node, any other exception leaves the function.
\<close>

fun filter_loop :: "(string \<times> mat3) list \<Rightarrow> (string \<times> mat3) list
    \<Rightarrow> error + (string \<times> mat3) list" where
  "filter_loop [] filtered_rotations = Inr filtered_rotations"
| "filter_loop ((node_name, R_mean) # mean_rotations) filtered_rotations =
     (if take 4 node_name = ''node'' then
        (case node_in_range node_name of
           Inr keep \<Rightarrow>
             filter_loop mean_rotations
               (if keep then dict_set filtered_rotations node_name R_mean
                else filtered_rotations)
         | Inl e \<Rightarrow>
             if e = ValueError \<or> e = IndexError
             then filter_loop mean_rotations filtered_rotations
             else Inl e)
      else filter_loop mean_rotations filtered_rotations)"

text \<open>
  \<open>sorted(d.items())\<close> for a dict with string keys: the keys differ, so the values are
  never compared.
\<close>

definition sorted_items :: "(string \<times> 'v) list \<Rightarrow> (string \<times> 'v) list" where
  "sorted_items d = sort_key fst d"

definition plot_combined_filtered_nodes :: "(string \<times> mat3) list \<Rightarrow> string
    \<Rightarrow> error + plot option" where
  "plot_combined_filtered_nodes mean_rotations output_dir =
     and_then (filter_loop mean_rotations []) (\<lambda>filtered_rotations.
       if filtered_rotations = [] then Inr None
       else Inr (Some \<lparr>drawn = map fst (sorted_items filtered_rotations),
                        save_path = os_path_join output_dir combined_image_name\<rparr>))"

fun group_nodes_by_prefix_loop :: "(string \<times> mat3) list
    \<Rightarrow> (string \<times> (string \<times> mat3) list) list
    \<Rightarrow> error + (string \<times> (string \<times> mat3) list) list" where
  "group_nodes_by_prefix_loop [] grouped = Inr grouped"
| "group_nodes_by_prefix_loop ((node_name, R_mean) # mean_rotations) grouped =
     and_then (index (split_on CHR ''_'' node_name) 0) (\<lambda>prefix.
       let grouped = (if prefix \<notin> set (dict_keys grouped) then dict_set grouped prefix []
                      else grouped)
       in and_then (case map_of grouped prefix of
                      None \<Rightarrow> Inl KeyError
                    | Some g \<Rightarrow> Inr (dict_set grouped prefix (dict_set g node_name R_mean)))
            (\<lambda>grouped. group_nodes_by_prefix_loop mean_rotations grouped))"

definition group_nodes_by_prefix :: "(string \<times> mat3) list
    \<Rightarrow> error + (string \<times> (string \<times> mat3) list) list" where
  "group_nodes_by_prefix mean_rotations = group_nodes_by_prefix_loop mean_rotations []"

definition plot_mean_frames_3d_grouped :: "(string \<times> mat3) list \<Rightarrow> string
    \<Rightarrow> error + plot list" where
  "plot_mean_frames_3d_grouped mean_rotations output_dir =
     and_then (group_nodes_by_prefix mean_rotations) (\<lambda>grouped_nodes.
       Inr (map (\<lambda>(group_name, group_rotations).
                   \<lparr>drawn = map fst (sorted_items group_rotations),
                    save_path = os_path_join output_dir (group_image_name group_name)\<rparr>)
              (sorted_items grouped_nodes)))"

text \<open>
  \<open>main\<close>: how the run ended and the figures it saved. The directory \<open>inputs\<close> is the
  content of \<open>ExtractedNodeRawDataCSV\<close> beside the script, and \<open>script_dir\<close> is where the
  images go. Each outcome but \<open>Completed\<close> is a diagnostic on the console followed by
  \<open>return\<close>.
\<close>

datatype outcome = NoInputFiles | NoHeading | Completed

record run =
  outcome :: outcome
  plots :: "plot list"

definition images :: "run \<Rightarrow> string list" where
  "images r = map save_path (plots r)"

definition main :: "svd_fun \<Rightarrow> string \<Rightarrow> directory \<Rightarrow> error + run" where
  "main svd script_dir inputs =
     (case load_node_files inputs of
        Inl e \<Rightarrow>
          if e = FileNotFoundError then Inr \<lparr>outcome = NoInputFiles, plots = []\<rparr> else Inl e
      | Inr node_data \<Rightarrow>
          and_then (compute_mean_heading_per_node svd node_data 100)
            (\<lambda>(mean_rotations, angles_data).
               if mean_rotations = [] then Inr \<lparr>outcome = NoHeading, plots = []\<rparr>
               else and_then (plot_combined_filtered_nodes mean_rotations script_dir) (\<lambda>p.
                      Inr \<lparr>outcome = Completed,
                           plots = (case p of None \<Rightarrow> [] | Some f \<Rightarrow> [f])\<rparr>)))"

section \<open>Definitions for the statements and the witnesses\<close>

text \<open>
  The range filter in the words of the specification: the name starts with \<open>node\<close>, and
  the text between \<open>node\<close> and the first underscore parses as an integer from 3 to 12.
\<close>

definition in_range_3_12 :: "string \<Rightarrow> bool" where
  "in_range_3_12 n \<longleftrightarrow> take 4 n = ''node''
     \<and> (\<exists>k. py_int (takeWhile (\<lambda>c. c \<noteq> CHR ''_'') (drop 4 n)) = Inr k \<and> 3 \<le> k \<and> k \<le> 12)"

text \<open>Two tables: one with the four quaternion columns, one whose \<open>qy\<close> is spelt \<open>QY\<close>.\<close>

definition df_full :: dataframe where
  "df_full = [(''qw'', [1, 1]), (''qx'', [0, 0]), (''qy'', [0, 0]), (''qz'', [0, 0])]"

definition df_short :: dataframe where
  "df_short = [(''qw'', [1]), (''qx'', [0]), (''QY'', [0]), (''qz'', [0])]"

text \<open>No column label of \<open>quat_cols\<close> stands on two columns of the table.\<close>

definition quat_labels_once :: "dataframe \<Rightarrow> bool" where
  "quat_labels_once df =
     list_all (\<lambda>c. length (filter (\<lambda>(h, cells). h = c) df) \<le> 1) quat_cols"

text \<open>
  A table with two columns \<open>qw\<close>, as \<open>load_node_files\<close> makes it from the header
  \<open>qw, qw,qx,qy,qz\<close> by stripping the labels.
\<close>

definition df_repeated :: dataframe where
  "df_repeated = [(''qw'', [1]), (''qw'', [0]), (''qx'', [0]), (''qy'', [0]), (''qz'', [0])]"

text \<open>
  A matrix of double-precision numbers next to the quarter turn about the \<open>y\<close> axis:
  \<open>R[2,0]\<close> is the double before \<open>-1\<close>, and two entries are \<open>2^-60\<close> in size instead
  of 0. \<open>entries_within eps A B\<close> says that no entry of \<open>A\<close> is further than \<open>eps\<close> from
  the entry of \<open>B\<close>.
\<close>

definition near_lock :: mat3 where
  "near_lock = Mat3 (- (1 / 2 ^ 60)) 0 1
                    0 1 0
                    (- (1 - 1 / 2 ^ 53)) 0 (1 / 2 ^ 60)"

definition entries_within :: "real \<Rightarrow> mat3 \<Rightarrow> mat3 \<Rightarrow> bool" where
  "entries_within eps A B \<longleftrightarrow>
     \<bar>m00 A - m00 B\<bar> \<le> eps \<and> \<bar>m01 A - m01 B\<bar> \<le> eps \<and> \<bar>m02 A - m02 B\<bar> \<le> eps
     \<and> \<bar>m10 A - m10 B\<bar> \<le> eps \<and> \<bar>m11 A - m11 B\<bar> \<le> eps \<and> \<bar>m12 A - m12 B\<bar> \<le> eps
     \<and> \<bar>m20 A - m20 B\<bar> \<le> eps \<and> \<bar>m21 A - m21 B\<bar> \<le> eps \<and> \<bar>m22 A - m22 B\<bar> \<le> eps"

text \<open>
  Three directories: the one of the loader example, one without any file that matches
  \<open>node*.csv\<close>, and one with a single node.
\<close>

definition three_files :: directory where
  "three_files = [(''node3.csv'', df_full), (''node10_1.csv'', df_full), (''nodeX.csv'', df_short)]"

definition no_node_files :: directory where
  "no_node_files = [(''readme.txt'', []), (''node3.txt'', df_full), (''imu3.csv'', df_full)]"

definition one_node :: directory where
  "one_node = [(''node3.csv'', df_full)]"

text \<open>Two directories of three nodes, of which \<open>node10_2\<close> lacks a column.\<close>

definition nodes_in_range :: directory where
  "nodes_in_range =
     [(''node2.csv'', df_full), (''node10_1.csv'', df_full), (''node10_2.csv'', df_short)]"

definition nodes_out_of_range :: directory where
  "nodes_out_of_range =
     [(''node2.csv'', df_full), (''node13.csv'', df_full), (''node10_2.csv'', df_short)]"

section \<open>FindImuWorld: the arrays of \<open>compute_mean_rotation\<close> in a store\<close>

text \<open>
  numpy arrays are objects, and the loop of \<open>compute_mean_rotation\<close> assigns to rows of
  \<open>qs\<close>. To say which array these assignments reach, the (N, 4) arrays live in a store:
  a list of arrays, an array's address being its position. \<open>np.array(quaternions,
  dtype=float)\<close> makes a new array with the same rows at the next free address.
\<close>

type_synonym store = "quat list list"

definition np_array :: "store \<Rightarrow> nat \<Rightarrow> store \<times> nat" where
  "np_array s a = (s @ [s ! a], length s)"

text \<open>
  The loop on the store: the two assignments of \<open>align_step\<close> write row \<open>i\<close> of the
  array at address \<open>qs\<close>.
\<close>

fun align_loop_store :: "quat \<Rightarrow> nat \<Rightarrow> nat \<Rightarrow> nat \<Rightarrow> store \<Rightarrow> error + store" where
  "align_loop_store q0 qs i 0 s = Inr s"
| "align_loop_store q0 qs i (Suc k) s =
     and_then (align_step q0 (s ! qs) i) (\<lambda>rows.
       align_loop_store q0 qs (Suc i) k (s[qs := rows]))"

text \<open>
  \<open>compute_mean_rotation\<close> with its argument an address of the store: it returns the store
  after the call and the result.
\<close>

definition compute_mean_rotation_store :: "svd_fun \<Rightarrow> store \<Rightarrow> nat \<Rightarrow> store \<times> (error + mat3)" where
  "compute_mean_rotation_store svd s quaternions =
     (case np_array s quaternions of (s, qs) \<Rightarrow>
        if s ! qs = [] then (s, Inr eye3)
        else
          let q0 = hd (s ! qs); n0 = norm4 q0 in
          case (if n0 > 0 then qdiv q0 n0 else Inr q0) of
            Inl e \<Rightarrow> (s, Inl e)
          | Inr q0 \<Rightarrow>
              (case align_loop_store q0 qs 0 (length (s ! qs)) s of
                 Inl e \<Rightarrow> (s, Inl e)
               | Inr s \<Rightarrow>
                   (s, and_then (mean4 (s ! qs)) (\<lambda>q_mean.
                         let n_mean = norm4 q_mean in
                         and_then (if n_mean < 1 / 10 ^ 12 then Inr eye3
                                   else and_then (qdiv q_mean n_mean)
                                          (\<lambda>q_mean. quat_to_rotation_matrix q_mean))
                           (\<lambda>R. Inr (orthonormalize svd R))))))"

section \<open>Properties of the rotation conversion\<close>

text \<open>
  C6. At gimbal lock, that is for every matrix \<open>R\<close> with \<open>|R[2,0]| \<ge> 1\<close>,
  \<open>rotation_matrix_to_rpy_extrinsic\<close> returns roll 0, pitch \<open>pi/2\<close> when \<open>-R[2,0]\<close> is
  positive and \<open>-pi/2\<close> when it is negative, and the yaw \<open>arctan2(R[0,1], R[1,1])\<close> in the
  positive case and \<open>arctan2(-R[0,1], R[1,1])\<close> in the negative case.
\<close>

theorem rpy_extrinsic_gimbal_lock:
  assumes "\<bar>m20 R\<bar> \<ge> 1"
  shows "(0 < - m20 R \<longrightarrow>
            rotation_matrix_to_rpy_extrinsic R = (0, pi / 2, arctan2 (m01 R) (m11 R)))
       \<and> (- m20 R < 0 \<longrightarrow>
            rotation_matrix_to_rpy_extrinsic R = (0, - (pi / 2), arctan2 (- m01 R) (m11 R)))
       \<and> (0 < - m20 R \<or> - m20 R < 0)"
  using assms by (auto simp: rotation_matrix_to_rpy_extrinsic_def copysign_def Let_def)

theorem rpy_extrinsic_gimbal_lock_witness:
  "\<bar>m20 (Mat3 0 0 1  0 1 0  (-1) 0 0)\<bar> \<ge> 1
   \<and> rotation_matrix_to_rpy_extrinsic (Mat3 0 0 1  0 1 0  (-1) 0 0) = (0, pi / 2, 0)"
  using rpy_extrinsic_gimbal_lock [of "Mat3 0 0 1  0 1 0  (-1) 0 0"]
  by (simp add: arctan2_def)

subsection \<open>Matrix algebra\<close>

lemma matmul_assoc: "matmul (matmul A B) C = matmul A (matmul B C)"
  by (simp add: matmul_def algebra_simps)

lemma matmul_eye_left [simp]: "matmul eye3 A = A"
  by (simp add: matmul_def eye3_def)

lemma matmul_eye_right [simp]: "matmul A eye3 = A"
  by (simp add: matmul_def eye3_def)

lemma det3_matmul: "det3 (matmul A B) = det3 A * det3 B"
  by (simp add: det3_def matmul_def algebra_simps)

lemma det3_transpose [simp]: "det3 (transpose3 A) = det3 A"
  by (simp add: det3_def transpose3_def algebra_simps)

lemma matmul_adj3: "matmul A (adj3 A) = scale3 (det3 A) eye3"
  by (simp add: matmul_def adj3_def scale3_def det3_def eye3_def algebra_simps)

lemma transpose3_matmul: "transpose3 (matmul A B) = matmul (transpose3 B) (transpose3 A)"
  by (simp add: matmul_def transpose3_def algebra_simps)

lemma transpose3_transpose3 [simp]: "transpose3 (transpose3 A) = A"
  by (simp add: transpose3_def)

lemma matmul_scale3_right: "matmul A (scale3 k B) = scale3 k (matmul A B)"
  by (simp add: matmul_def scale3_def algebra_simps)

lemma scale3_one [simp]: "scale3 1 A = A"
  by (simp add: scale3_def)

lemma det3_eye3 [simp]: "det3 eye3 = 1"
  by (simp add: det3_def eye3_def)

lemma orthogonal3_det_sq:
  assumes "orthogonal3 A"
  shows "det3 A * det3 A = 1"
proof -
  have "det3 (matmul (transpose3 A) A) = 1"
    using assms by (simp add: orthogonal3_def)
  then show ?thesis by (simp add: det3_matmul)
qed

lemma orthogonal3_transpose_eq:
  assumes "orthogonal3 A"
  shows "transpose3 A = scale3 (det3 A) (adj3 A)"
proof -
  have d: "det3 A * det3 A = 1" by (rule orthogonal3_det_sq [OF assms])
  have "matmul A (scale3 (det3 A) (adj3 A)) = scale3 (det3 A) (scale3 (det3 A) eye3)"
    by (simp add: matmul_scale3_right matmul_adj3)
  also have "\<dots> = eye3"
    using d by (simp add: scale3_def eye3_def)
  finally have r: "matmul A (scale3 (det3 A) (adj3 A)) = eye3" .
  have "transpose3 A = matmul (transpose3 A) (matmul A (scale3 (det3 A) (adj3 A)))"
    by (simp add: r)
  also have "\<dots> = matmul (matmul (transpose3 A) A) (scale3 (det3 A) (adj3 A))"
    by (simp add: matmul_assoc)
  also have "\<dots> = scale3 (det3 A) (adj3 A)"
    using assms by (simp add: orthogonal3_def)
  finally show ?thesis .
qed

lemma orthogonal3_right:
  assumes "orthogonal3 A"
  shows "matmul A (transpose3 A) = eye3"
proof -
  have d: "det3 A * det3 A = 1" by (rule orthogonal3_det_sq [OF assms])
  have "matmul A (transpose3 A) = scale3 (det3 A) (scale3 (det3 A) eye3)"
    by (simp add: orthogonal3_transpose_eq [OF assms] matmul_scale3_right matmul_adj3)
  also have "\<dots> = eye3"
    using d by (simp add: scale3_def eye3_def)
  finally show ?thesis .
qed

lemma proper_rotation_entries:
  assumes "proper_rotation (Mat3 a b c d e f g h i)"
  shows "a * a + d * d + g * g = 1" and "g * g + h * h + i * i = 1"
    and "a * b + d * e + g * h = 0" and "a * c + d * f + g * i = 0"
    and "i = a * e - b * d" and "h = c * d - a * f"
proof -
  let ?R = "Mat3 a b c d e f g h i"
  have o: "orthogonal3 ?R" and dt: "det3 ?R = 1"
    using assms by (simp_all add: proper_rotation_def orthogonal3_def)
  have cols: "matmul (transpose3 ?R) ?R = eye3"
    using o by (simp add: orthogonal3_def)
  have rows: "matmul ?R (transpose3 ?R) = eye3"
    by (rule orthogonal3_right [OF o])
  have adj: "transpose3 ?R = adj3 ?R"
    using orthogonal3_transpose_eq [OF o] dt by simp
  have "m00 (matmul (transpose3 ?R) ?R) = m00 eye3" by (simp only: cols)
  then show "a * a + d * d + g * g = 1" by (simp add: matmul_def transpose3_def eye3_def)
  have "m01 (matmul (transpose3 ?R) ?R) = m01 eye3" by (simp only: cols)
  then show "a * b + d * e + g * h = 0" by (simp add: matmul_def transpose3_def eye3_def)
  have "m02 (matmul (transpose3 ?R) ?R) = m02 eye3" by (simp only: cols)
  then show "a * c + d * f + g * i = 0" by (simp add: matmul_def transpose3_def eye3_def)
  have "m22 (matmul ?R (transpose3 ?R)) = m22 eye3" by (simp only: rows)
  then show "g * g + h * h + i * i = 1" by (simp add: matmul_def transpose3_def eye3_def)
  have "m22 (transpose3 ?R) = m22 (adj3 ?R)" by (simp only: adj)
  then show "i = a * e - b * d" by (simp add: transpose3_def adj3_def)
  have "m12 (transpose3 ?R) = m12 (adj3 ?R)" by (simp only: adj)
  then show "h = c * d - a * f" by (simp add: transpose3_def adj3_def)
qed

subsection \<open>Sine and cosine of \<open>arctan2\<close>\<close>

lemma sqrt_div_pos: 
  fixes x y :: real assumes "x \<noteq> 0"
  shows "sqrt (1 + (y / x)\<^sup>2) = sqrt (x\<^sup>2 + y\<^sup>2) / \<bar>x\<bar>"
proof -
  have "1 + (y / x)\<^sup>2 = (x\<^sup>2 + y\<^sup>2) / x\<^sup>2"
    using assms by (simp add: field_simps power2_eq_square)
  then show ?thesis by (simp add: real_sqrt_divide)
qed

lemma cos_arctan2:
  assumes "x \<noteq> 0 \<or> y \<noteq> 0"
  shows "cos (arctan2 y x) = x / sqrt (x\<^sup>2 + y\<^sup>2)"
proof -
  consider "0 < x" | "x < 0" | "x = 0" "y \<noteq> 0" using assms by linarith
  then show ?thesis
  proof cases
    case 1
    then show ?thesis by (simp add: arctan2_def cos_arctan sqrt_div_pos)
  next
    case 2
    then show ?thesis by (simp add: arctan2_def cos_arctan sqrt_div_pos)
  next
    case 3
    then show ?thesis by (simp add: arctan2_def)
  qed
qed

lemma sin_arctan2:
  assumes "x \<noteq> 0 \<or> y \<noteq> 0"
  shows "sin (arctan2 y x) = y / sqrt (x\<^sup>2 + y\<^sup>2)"
proof -
  consider "0 < x" | "x < 0" | "x = 0" "0 < y" | "x = 0" "y < 0" using assms by linarith
  then show ?thesis
  proof cases
    case 1
    then show ?thesis by (simp add: arctan2_def sin_arctan sqrt_div_pos)
  next
    case 2
    then show ?thesis by (simp add: arctan2_def sin_arctan sqrt_div_pos)
  next
    case 3
    then show ?thesis by (simp add: arctan2_def)
  next
    case 4
    then show ?thesis by (simp add: arctan2_def real_sqrt_minus)
  qed
qed

subsection \<open>The extrinsic round trip\<close>

lemma rpy_round_trip_entries:
  fixes a b c d e f g h i k :: real
  assumes k: "0 < k" "k * k = a * a + d * d" "k * k = h * h + i * i"
    and gh: "g * h = - (a * b + d * e)" and gi: "g * i = - (a * c + d * f)"
    and i: "i = a * e - b * d" and h: "h = c * d - a * f"
  shows "(a / k) * (- g) * (h / k) - (d / k) * (i / k) = b"
    and "(a / k) * (- g) * (i / k) + (d / k) * (h / k) = c"
    and "(d / k) * (- g) * (h / k) + (a / k) * (i / k) = e"
    and "(d / k) * (- g) * (i / k) - (a / k) * (h / k) = f"
proof -
  have kz: "k \<noteq> 0" using k(1) by simp
  have "- a * (g * h) - d * i = b * (k * k)"
    unfolding gh k(2) by (subst i) (simp add: algebra_simps)
  moreover have "(a / k) * (- g) * (h / k) - (d / k) * (i / k)
      = (- a * (g * h) - d * i) / (k * k)"
    using kz by (simp add: field_simps)
  ultimately show "(a / k) * (- g) * (h / k) - (d / k) * (i / k) = b"
    using kz by simp
  have "- a * (g * i) + d * h = c * (k * k)"
    unfolding gi k(2) by (subst h) (simp add: algebra_simps)
  moreover have "(a / k) * (- g) * (i / k) + (d / k) * (h / k)
      = (- a * (g * i) + d * h) / (k * k)"
    using kz by (simp add: field_simps)
  ultimately show "(a / k) * (- g) * (i / k) + (d / k) * (h / k) = c"
    using kz by simp
  have "- d * (g * h) + a * i = e * (k * k)"
    unfolding gh k(2) by (subst i) (simp add: algebra_simps)
  moreover have "(d / k) * (- g) * (h / k) + (a / k) * (i / k)
      = (- d * (g * h) + a * i) / (k * k)"
    using kz by (simp add: field_simps)
  ultimately show "(d / k) * (- g) * (h / k) + (a / k) * (i / k) = e"
    using kz by simp
  have "- d * (g * i) - a * h = f * (k * k)"
    unfolding gi k(2) by (subst h) (simp add: algebra_simps)
  moreover have "(d / k) * (- g) * (i / k) - (a / k) * (h / k)
      = (- d * (g * i) - a * h) / (k * k)"
    using kz by (simp add: field_simps)
  ultimately show "(d / k) * (- g) * (i / k) - (a / k) * (h / k) = f"
    using kz by simp
qed

lemma rpy_round_trip:
  assumes rot: "proper_rotation R" and lock: "\<bar>m20 R\<bar> < 1"
  shows "reconstruct_extrinsic R = R"
proof (cases R)
  case (Mat3 a b c d e f g h i)
  note ent = proper_rotation_entries [OF rot [unfolded Mat3]]
  from lock Mat3 have g1: "\<bar>g\<bar> < 1" by simp
  define k where "k = sqrt (1 - g\<^sup>2)"
  have gg: "g * g < 1" using g1 by (metis abs_mult_self_eq abs_ge_zero mult_strict_mono' mult_1)
  have kpos: "0 < k" using gg by (simp add: k_def power2_eq_square)
  have ksq: "k * k = 1 - g * g" using gg by (simp add: k_def power2_eq_square)
  have k1: "k * k = a * a + d * d" using ent(1) ksq by simp
  have k2: "k * k = h * h + i * i" using ent(2) ksq by simp
  have s1: "sqrt (a\<^sup>2 + d\<^sup>2) = k" 
    using k1 kpos by (metis power2_eq_square real_sqrt_mult_self abs_of_pos real_sqrt_abs2)
  have s2: "sqrt (i\<^sup>2 + h\<^sup>2) = k"
    using k2 kpos by (metis power2_eq_square real_sqrt_mult_self abs_of_pos real_sqrt_abs2 add.commute)
  have nz1: "a \<noteq> 0 \<or> d \<noteq> 0" using k1 kpos by auto
  have nz2: "i \<noteq> 0 \<or> h \<noteq> 0" using k2 kpos by auto
  have cp: "cos (arcsin (- g)) = k" using g1 by (simp add: cos_arcsin k_def)
  have sp: "sin (arcsin (- g)) = - g" using g1 by simp
  have cy: "cos (arctan2 d a) = a / k" by (simp add: cos_arctan2 [OF nz1] s1)
  have sy: "sin (arctan2 d a) = d / k" by (simp add: sin_arctan2 [OF nz1] s1)
  have cr: "cos (arctan2 h i) = i / k" by (simp add: cos_arctan2 [OF nz2] s2)
  have sr: "sin (arctan2 h i) = h / k" by (simp add: sin_arctan2 [OF nz2] s2)
  have gh: "g * h = - (a * b + d * e)" using ent(3) by simp
  have gi: "g * i = - (a * c + d * f)" using ent(4) by simp
  note rt = rpy_round_trip_entries [OF kpos k1 k2 gh gi ent(5) ent(6)]
  have kz: "k \<noteq> 0" using kpos by simp
  show ?thesis
    using g1 kz rt
    by (simp add: Mat3 reconstruct_extrinsic_def rotation_matrix_to_rpy_extrinsic_def
        rpy_to_rotation_matrix_def
        matmul_def cp sp cy sy cr sr)
qed

text \<open>
  So the round trip is exact on the matrices that are rotations in exact arithmetic.
  The matrices the program holds are made of double-precision numbers and are rotations
  up to rounding only, and next to gimbal lock this is not enough: the lock branch is
  taken at \<open>|R[2,0]| \<ge> 1\<close> and not a step before.
\<close>

lemma near_lock_angles:
  "rotation_matrix_to_rpy_extrinsic near_lock = (0, arcsin (1 - 1 / 2 ^ 53), pi)"
proof -
  have "\<bar>1 - 1 / 2 ^ 53 :: real\<bar> < 1" by simp
  then show ?thesis
    by (simp add: rotation_matrix_to_rpy_extrinsic_def near_lock_def arctan2_def)
qed

lemma near_lock_reconstructed_m11:
  "m11 (rpy_to_rotation_matrix 0 (arcsin (1 - 1 / 2 ^ 53)) pi) = - 1"
  by (simp add: rpy_to_rotation_matrix_def matmul_def)

lemma frobenius_ge_m11: "\<bar>m11 A\<bar> \<le> frobenius A"
proof -
  have "(m11 A)\<^sup>2 \<le> (m00 A)\<^sup>2 + (m01 A)\<^sup>2 + (m02 A)\<^sup>2
                     + (m10 A)\<^sup>2 + (m11 A)\<^sup>2 + (m12 A)\<^sup>2
                     + (m20 A)\<^sup>2 + (m21 A)\<^sup>2 + (m22 A)\<^sup>2"
    by (simp add: add_nonneg_nonneg)
  then have "sqrt ((m11 A)\<^sup>2) \<le> frobenius A"
    unfolding frobenius_def by (rule real_sqrt_le_mono)
  then show ?thesis by simp
qed

text \<open>
  C1. The claim: for every rotation matrix \<open>R\<close> with \<open>|R[2,0]| < 1\<close>, the matrix that
  \<open>rpy_to_rotation_matrix\<close> builds from the angles of \<open>rotation_matrix_to_rpy_extrinsic R\<close>
  is within 0.01 of \<open>R\<close> in Frobenius norm. The code misses it at \<open>near_lock\<close>: every
  entry of this matrix is a double-precision number within \<open>2^-53\<close> of the quarter turn
  about the \<open>y\<close> axis, its transpose times it is within \<open>2^-52\<close> of the identity, its
  determinant within \<open>2^-52\<close> of 1, and \<open>|R[2,0]| < 1\<close>; the function takes the regular
  branch, returns the yaw \<open>pi\<close> from the sign of an entry of size \<open>2^-60\<close>, and the
  reconstructed matrix is at least 2 away from \<open>near_lock\<close>.
\<close>

theorem rpy_round_trip_fails_near_lock:
  "\<bar>m20 near_lock\<bar> < 1
   \<and> entries_within (1 / 2 ^ 53) near_lock (Mat3 0 0 1  0 1 0  (- 1) 0 0)
   \<and> entries_within (1 / 2 ^ 52) (matmul (transpose3 near_lock) near_lock) eye3
   \<and> \<bar>det3 near_lock - 1\<bar> \<le> 1 / 2 ^ 52
   \<and> rotation_matrix_to_rpy_extrinsic near_lock = (0, arcsin (1 - 1 / 2 ^ 53), pi)
   \<and> 2 \<le> frobenius (mat_sub near_lock
              (case rotation_matrix_to_rpy_extrinsic near_lock of
                 (roll, pitch, yaw) \<Rightarrow> rpy_to_rotation_matrix roll pitch yaw))"
proof (intro conjI)
  show "\<bar>m20 near_lock\<bar> < 1" by (simp add: near_lock_def)
  show "entries_within (1 / 2 ^ 53) near_lock (Mat3 0 0 1  0 1 0  (- 1) 0 0)"
    by (simp add: entries_within_def near_lock_def)
  show "entries_within (1 / 2 ^ 52) (matmul (transpose3 near_lock) near_lock) eye3"
    by (simp add: entries_within_def near_lock_def matmul_def transpose3_def eye3_def)
  show "\<bar>det3 near_lock - 1\<bar> \<le> 1 / 2 ^ 52"
    by (simp add: det3_def near_lock_def)
  show "rotation_matrix_to_rpy_extrinsic near_lock = (0, arcsin (1 - 1 / 2 ^ 53), pi)"
    by (rule near_lock_angles)
  have "m11 (mat_sub near_lock (rpy_to_rotation_matrix 0 (arcsin (1 - 1 / 2 ^ 53)) pi)) = 2"
    using near_lock_reconstructed_m11 by (simp add: mat_sub_def near_lock_def)
  then have "2 \<le> frobenius (mat_sub near_lock (rpy_to_rotation_matrix 0 (arcsin (1 - 1 / 2 ^ 53)) pi))"
    using frobenius_ge_m11 [of "mat_sub near_lock (rpy_to_rotation_matrix 0 (arcsin (1 - 1 / 2 ^ 53)) pi)"]
    by simp
  then show "2 \<le> frobenius (mat_sub near_lock
              (case rotation_matrix_to_rpy_extrinsic near_lock of
                 (roll, pitch, yaw) \<Rightarrow> rpy_to_rotation_matrix roll pitch yaw))"
    by (simp add: near_lock_angles)
qed

section \<open>Properties of the mean rotation\<close>

subsection \<open>The loop, and every division guarded\<close>

lemma and_then_Inr [simp]: "and_then (Inr v) f = f v"
  by (simp add: and_then_def)

lemma and_then_Inl [simp]: "and_then (Inl e) f = Inl e"
  by (simp add: and_then_def)

lemma qdiv_nonzero: "n \<noteq> 0 \<Longrightarrow> qdiv q n = Inr (case q of (w, x, y, z) \<Rightarrow> (w / n, x / n, y / n, z / n))"
  by (simp add: qdiv_def split: prod.splits)

lemma align_step_eq:
  assumes "i < length qs"
  shows "align_step q0 qs i = Inr (qs[i := align_elem q0 (qs ! i)])"
  using assms by (simp add: align_step_def align_elem_def Let_def qdiv_nonzero list_update_same_conv)

lemma align_loop_eq:
  "i + k = length qs \<Longrightarrow>
   align_loop q0 i k qs = Inr (take i qs @ map (align_elem q0) (drop i qs))"
proof (induction k arbitrary: i qs)
  case 0
  then show ?case by simp
next
  case (Suc k)
  then have i: "i < length qs" by simp
  have len: "Suc i + k = length (qs[i := align_elem q0 (qs ! i)])" using Suc.prems by simp
  have "align_loop q0 i (Suc k) qs
      = align_loop q0 (Suc i) k (qs[i := align_elem q0 (qs ! i)])"
    by (simp add: align_step_eq [OF i])
  also have "\<dots> = Inr (take (Suc i) (qs[i := align_elem q0 (qs ! i)])
                    @ map (align_elem q0) (drop (Suc i) (qs[i := align_elem q0 (qs ! i)])))"
    by (rule Suc.IH [OF len])
  also have "take (Suc i) (qs[i := align_elem q0 (qs ! i)]) = take i qs @ [align_elem q0 (qs ! i)]"
    using i by (simp add: take_Suc_conv_app_nth)
  also have "drop (Suc i) (qs[i := align_elem q0 (qs ! i)]) = drop (Suc i) qs"
    by simp
  finally show ?case using i by (simp add: Cons_nth_drop_Suc [symmetric])
qed

lemma align_loop_all: "align_loop q0 0 (length qs) qs = Inr (map (align_elem q0) qs)"
  using align_loop_eq [of 0 "length qs" qs q0] by simp

lemma mean4_eq:
  "qs \<noteq> [] \<Longrightarrow> mean4 qs = Inr (case foldl add4 (0, 0, 0, 0) qs of
      (w, x, y, z) \<Rightarrow> (w / real (length qs), x / real (length qs), y / real (length qs), z / real (length qs)))"
  by (simp add: mean4_def qdiv_nonzero)

lemma quat_to_rotation_matrix_total: "\<exists>M. quat_to_rotation_matrix q = Inr M"
proof -
  obtain w x y z where q: "q = (w, x, y, z)" by (cases q) auto
  show ?thesis
  proof (cases "sqrt (w * w + x * x + y * y + z * z) < 1 / 10 ^ 12")
    case True
    then show ?thesis by (simp add: quat_to_rotation_matrix_def q)
  next
    case False
    then have "sqrt (w * w + x * x + y * y + z * z) \<noteq> 0" by auto
    then show ?thesis
      using False by (simp add: quat_to_rotation_matrix_def q qdiv_nonzero Let_def del: real_sqrt_eq_zero_cancel_iff)
  qed
qed

lemma mean_quaternion_matrix_total:
  assumes "qs \<noteq> []"
  shows "\<exists>M. mean_quaternion_matrix qs = Inr M"
proof -
  define q0 where "q0 = (if norm4 (hd qs) > 0
     then (case hd qs of (w, x, y, z) \<Rightarrow> (w / norm4 (hd qs), x / norm4 (hd qs), y / norm4 (hd qs), z / norm4 (hd qs)))
     else hd qs)"
  have q0: "(if norm4 (hd qs) > 0 then qdiv (hd qs) (norm4 (hd qs)) else Inr (hd qs)) = Inr q0"
    by (simp add: q0_def qdiv_nonzero)
  define al where "al = map (align_elem q0) qs"
  have al: "al \<noteq> []" using assms by (simp add: al_def)
  obtain qm where qm: "mean4 al = Inr qm" using mean4_eq [OF al] by blast
  have step: "mean_quaternion_matrix qs =
     (if norm4 qm < 1 / 10 ^ 12 then Inr eye3
      else and_then (qdiv qm (norm4 qm)) (\<lambda>q_mean. quat_to_rotation_matrix q_mean))"
    unfolding mean_quaternion_matrix_def Let_def q0 
    by (simp add: align_loop_all al_def [symmetric] qm)
  show ?thesis
  proof (cases "norm4 qm < 1 / 10 ^ 12")
    case True
    then show ?thesis by (simp add: step)
  next
    case False
    then have "norm4 qm \<noteq> 0" by auto
    then show ?thesis
      using False quat_to_rotation_matrix_total by (simp add: step qdiv_nonzero)
  qed
qed

subsection \<open>The polar decomposition\<close>

lemma orthogonal3_matmul:
  assumes "orthogonal3 A" "orthogonal3 B"
  shows "orthogonal3 (matmul A B)"
proof -
  have "matmul (transpose3 (matmul A B)) (matmul A B)
      = matmul (transpose3 B) (matmul (matmul (transpose3 A) A) B)"
    by (simp add: transpose3_matmul matmul_assoc)
  also have "\<dots> = eye3" using assms by (simp add: orthogonal3_def)
  finally show ?thesis by (simp add: orthogonal3_def)
qed

lemma orthogonal3_transpose:
  assumes "orthogonal3 A"
  shows "orthogonal3 (transpose3 A)"
  using orthogonal3_right [OF assms] by (simp add: orthogonal3_def)

lemma orthogonal3_eye3 [simp]: "orthogonal3 eye3"
  by (simp add: orthogonal3_def transpose3_def eye3_def matmul_def)

lemma det3_negate_last_column: "det3 (negate_last_column U) = - det3 U"
  by (simp add: det3_def negate_last_column_def algebra_simps)

lemma negate_last_column_matmul:
  "negate_last_column U = matmul U (Mat3 1 0 0  0 1 0  0 0 (-1))"
  by (simp add: negate_last_column_def matmul_def)

lemma orthogonal3_negate_last_column:
  assumes "orthogonal3 U"
  shows "orthogonal3 (negate_last_column U)"
proof -
  have "orthogonal3 (Mat3 1 0 0  0 1 0  0 0 (-1))"
    by (simp add: orthogonal3_def transpose3_def eye3_def matmul_def)
  with assms show ?thesis
    unfolding negate_last_column_matmul by (rule orthogonal3_matmul)
qed

lemma orthogonal3_det: "orthogonal3 A \<Longrightarrow> det3 A = 1 \<or> det3 A = - 1"
proof -
  assume "orthogonal3 A"
  then have "det3 A * det3 A = 1" by (rule orthogonal3_det_sq)
  then have "(det3 A - 1) * (det3 A + 1) = 0" by (simp add: algebra_simps)
  then show ?thesis by auto
qed

lemma orthonormalize_proper:
  assumes svd: "svd R = (U, S, Vt)" and U: "orthogonal3 U" and Vt: "orthogonal3 Vt"
  shows "proper_rotation (orthonormalize svd R)"
proof (cases "det3 (matmul U Vt) < 0")
  case True
  have o: "orthogonal3 (matmul (negate_last_column U) Vt)"
    by (rule orthogonal3_matmul [OF orthogonal3_negate_last_column [OF U] Vt])
  have "det3 (matmul (negate_last_column U) Vt) = - det3 (matmul U Vt)"
    by (simp add: det3_matmul det3_negate_last_column)
  with True orthogonal3_det [OF o] have "det3 (matmul (negate_last_column U) Vt) = 1"
    by linarith
  with o True show ?thesis
    by (simp add: orthonormalize_def svd proper_rotation_def orthogonal3_def)
next
  case False
  have o: "orthogonal3 (matmul U Vt)" by (rule orthogonal3_matmul [OF U Vt])
  with False orthogonal3_det [OF o] have "det3 (matmul U Vt) = 1" by linarith
  with o False show ?thesis
    by (simp add: orthonormalize_def svd proper_rotation_def orthogonal3_def)
qed

lemma orthonormalize_is_svd:
  assumes "is_svd R (svd R)"
  shows "proper_rotation (orthonormalize svd R)"
proof -
  obtain U S Vt where s: "svd R = (U, S, Vt)" by (cases "svd R") auto
  from assms have "orthogonal3 U" "orthogonal3 Vt"
    by (auto simp: is_svd_def s split: prod.splits)
  then show ?thesis using s by (simp add: orthonormalize_proper)
qed

subsection \<open>The matrix of a unit quaternion is a rotation\<close>

lemma proper_rotation_eye3 [simp]: "proper_rotation eye3"
  by (simp add: proper_rotation_def transpose3_def eye3_def matmul_def det3_def)

lemma quat_matrix_homogeneous:
  fixes w x y z :: real
  assumes "w * w + x * x + y * y + z * z = 1"
  shows "quat_matrix (w, x, y, z) = Mat3
     (w * w + x * x - y * y - z * z) (2 * (x * y - w * z)) (2 * (x * z + w * y))
     (2 * (x * y + w * z)) (w * w - x * x + y * y - z * z) (2 * (y * z - w * x))
     (2 * (x * z - w * y)) (2 * (y * z + w * x)) (w * w - x * x - y * y + z * z)"
proof -
  have "1 - 2 * (y * y + z * z) = w * w + x * x - y * y - z * z"
    "1 - 2 * (x * x + z * z) = w * w - x * x + y * y - z * z"
    "1 - 2 * (x * x + y * y) = w * w - x * x - y * y + z * z"
    using assms by (simp_all add: algebra_simps)
  then show ?thesis by (simp add: quat_matrix_def)
qed

lemma homogeneous_orthogonal:
  fixes w x y z :: real
  defines "H \<equiv> Mat3
     (w * w + x * x - y * y - z * z) (2 * (x * y - w * z)) (2 * (x * z + w * y))
     (2 * (x * y + w * z)) (w * w - x * x + y * y - z * z) (2 * (y * z - w * x))
     (2 * (x * z - w * y)) (2 * (y * z + w * x)) (w * w - x * x - y * y + z * z)"
  shows "matmul (transpose3 H) H
       = scale3 ((w * w + x * x + y * y + z * z) * (w * w + x * x + y * y + z * z)) eye3"
  by (simp add: H_def matmul_def transpose3_def scale3_def eye3_def algebra_simps)

lemma homogeneous_det:
  fixes w x y z :: real
  defines "H \<equiv> Mat3
     (w * w + x * x - y * y - z * z) (2 * (x * y - w * z)) (2 * (x * z + w * y))
     (2 * (x * y + w * z)) (w * w - x * x + y * y - z * z) (2 * (y * z - w * x))
     (2 * (x * z - w * y)) (2 * (y * z + w * x)) (w * w - x * x - y * y + z * z)"
  shows "det3 H = (w * w + x * x + y * y + z * z) * (w * w + x * x + y * y + z * z)
                * (w * w + x * x + y * y + z * z)"
  by (simp add: H_def det3_def algebra_simps)

lemma quat_matrix_proper:
  fixes w x y z :: real
  assumes "w * w + x * x + y * y + z * z = 1"
  shows "proper_rotation (quat_matrix (w, x, y, z))"
  unfolding proper_rotation_def quat_matrix_homogeneous [OF assms]
    homogeneous_orthogonal homogeneous_det assms
  by simp

lemma quat_to_rotation_matrix_unit:
  assumes "norm4 q = 1"
  shows "quat_to_rotation_matrix q = Inr (quat_matrix q)"
proof -
  obtain w x y z where q: "q = (w, x, y, z)" by (cases q) auto
  from assms have "sqrt (w * w + x * x + y * y + z * z) = 1" by (simp add: norm4_def q)
  then show ?thesis
    by (simp add: quat_to_rotation_matrix_def q qdiv_def quat_matrix_def)
qed

lemma normalized_unit:
  fixes w x y z n :: real
  assumes n: "n = sqrt (w * w + x * x + y * y + z * z)" and pos: "0 < n"
  shows "(w / n) * (w / n) + (x / n) * (x / n) + (y / n) * (y / n) + (z / n) * (z / n) = 1"
proof -
  have s: "0 \<le> w * w + x * x + y * y + z * z" by simp
  have nn: "n * n = w * w + x * x + y * y + z * z"
    unfolding n using s by (metis real_sqrt_mult_self abs_of_nonneg)
  have nz: "n * n \<noteq> 0" using pos by simp
  have "(w / n) * (w / n) + (x / n) * (x / n) + (y / n) * (y / n) + (z / n) * (z / n)
      = (w * w + x * x + y * y + z * z) / (n * n)"
    by (simp add: add_divide_distrib)
  also have "\<dots> = (n * n) / (n * n)" by (simp only: nn)
  also have "\<dots> = 1" using nz by simp
  finally show ?thesis .
qed

lemma quat_to_rotation_matrix_proper:
  assumes "quat_to_rotation_matrix q = Inr M"
  shows "proper_rotation M"
proof -
  obtain w x y z where q: "q = (w, x, y, z)" by (cases q) auto
  define n where "n = sqrt (w * w + x * x + y * y + z * z)"
  show ?thesis
  proof (cases "n < 1 / 10 ^ 12")
    case True
    with assms show ?thesis
      by (auto simp: quat_to_rotation_matrix_def q n_def [symmetric])
  next
    case False
    then have pos: "0 < n" by (smt (verit) zero_less_divide_1_iff zero_less_power)
    then have nz: "n \<noteq> 0" by simp
    from assms False nz have "M = quat_matrix (w / n, x / n, y / n, z / n)"
      by (simp add: quat_to_rotation_matrix_def q n_def [symmetric] Let_def qdiv_def quat_matrix_def)
    then show ?thesis
      using quat_matrix_proper [OF normalized_unit [OF n_def pos]] by simp
  qed
qed

lemma mean_quaternion_matrix_proper:
  assumes "qs \<noteq> []" and "mean_quaternion_matrix qs = Inr M"
  shows "proper_rotation M"
proof -
  define q0 where "q0 = (if norm4 (hd qs) > 0
     then (case hd qs of (w, x, y, z) \<Rightarrow> (w / norm4 (hd qs), x / norm4 (hd qs), y / norm4 (hd qs), z / norm4 (hd qs)))
     else hd qs)"
  have q0: "(if norm4 (hd qs) > 0 then qdiv (hd qs) (norm4 (hd qs)) else Inr (hd qs)) = Inr q0"
    by (simp add: q0_def qdiv_nonzero)
  define al where "al = map (align_elem q0) qs"
  have al: "al \<noteq> []" using assms by (simp add: al_def)
  obtain qm where qm: "mean4 al = Inr qm" using mean4_eq [OF al] by blast
  have step: "mean_quaternion_matrix qs =
     (if norm4 qm < 1 / 10 ^ 12 then Inr eye3
      else and_then (qdiv qm (norm4 qm)) (\<lambda>q_mean. quat_to_rotation_matrix q_mean))"
    unfolding mean_quaternion_matrix_def Let_def q0 
    by (simp add: align_loop_all al_def [symmetric] qm)
  show ?thesis
  proof (cases "norm4 qm < 1 / 10 ^ 12")
    case True
    with assms(2) show ?thesis by (auto simp: step)
  next
    case False
    then have "norm4 qm \<noteq> 0" by auto
    with assms(2) False show ?thesis
      by (auto simp: step qdiv_nonzero intro: quat_to_rotation_matrix_proper)
  qed
qed

lemma proper_rotation_orthogonal: "proper_rotation M \<Longrightarrow> orthogonal3 M"
  by (simp add: proper_rotation_def orthogonal3_def)

lemma is_svd_of_orthogonal:
  assumes "orthogonal3 M"
  shows "is_svd M (svd_of_orthogonal M)"
  using assms by (simp add: is_svd_def svd_of_orthogonal_def diag3_def eye3_def [symmetric])

subsection \<open>The polar factor of an orthogonal matrix\<close>

lemma orth_cancel_left:
  assumes "orthogonal3 A"
  shows "matmul (transpose3 A) (matmul A X) = X"
proof -
  have "matmul (transpose3 A) (matmul A X) = matmul (matmul (transpose3 A) A) X"
    by (simp add: matmul_assoc)
  then show ?thesis using assms by (simp add: orthogonal3_def)
qed

lemma diag3_orthogonal_eye:
  assumes "orthogonal3 (diag3 (s1, s2, s3))" and "0 \<le> s1" "0 \<le> s2" "0 \<le> s3"
  shows "diag3 (s1, s2, s3) = eye3"
proof -
  from assms(1) have "s1 * s1 = 1" "s2 * s2 = 1" "s3 * s3 = 1"
    by (simp_all add: orthogonal3_def diag3_def matmul_def transpose3_def eye3_def)
  then have "(s1 - 1) * (s1 + 1) = 0" "(s2 - 1) * (s2 + 1) = 0" "(s3 - 1) * (s3 + 1) = 0"
    by (simp_all add: algebra_simps)
  with assms(2-4) have "s1 = 1" "s2 = 1" "s3 = 1" by auto
  then show ?thesis by (simp add: diag3_def eye3_def)
qed

lemma polar_of_orthogonal:
  assumes svd: "is_svd M (U, S, Vt)" and M: "orthogonal3 M"
  shows "matmul U Vt = M"
proof -
  obtain s1 s2 s3 where S: "S = (s1, s2, s3)" by (cases S) auto
  let ?D = "diag3 (s1, s2, s3)"
  from svd have U: "orthogonal3 U" and Vt: "orthogonal3 Vt"
    and nonneg: "0 \<le> s1" "0 \<le> s2" "0 \<le> s3"
    and dec: "M = matmul (matmul U ?D) Vt"
    by (auto simp: is_svd_def S)
  have "matmul (matmul (transpose3 U) M) (transpose3 Vt)
      = matmul (transpose3 U) (matmul U (matmul ?D (matmul Vt (transpose3 Vt))))"
    by (simp add: dec matmul_assoc)
  also have "\<dots> = ?D"
    by (simp add: orth_cancel_left [OF U] orthogonal3_right [OF Vt])
  finally have D: "?D = matmul (matmul (transpose3 U) M) (transpose3 Vt)" by simp
  have "orthogonal3 ?D"
    unfolding D
    by (intro orthogonal3_matmul orthogonal3_transpose U Vt M)
  then have "?D = eye3" using nonneg by (rule diag3_orthogonal_eye)
  then show ?thesis by (simp add: dec)
qed

lemma orthonormalize_rotation:
  assumes svd: "is_svd M (svd M)" and M: "proper_rotation M"
  shows "orthonormalize svd M = M"
proof -
  obtain U S Vt where s: "svd M = (U, S, Vt)" by (cases "svd M") auto
  have "matmul U Vt = M"
    using svd proper_rotation_orthogonal [OF M] unfolding s by (rule polar_of_orthogonal)
  moreover have "det3 M = 1" using M by (simp add: proper_rotation_def)
  ultimately show ?thesis by (simp add: orthonormalize_def s)
qed

lemma compute_mean_rotation_zeros:
  assumes "qs \<noteq> []" and "\<forall>q\<in>set qs. q = (0, 0, 0, 0)"
  shows "mean_quaternion_matrix qs = Inr eye3"
proof -
  have hd0: "hd qs = (0, 0, 0, 0)" using assms by (cases qs) auto
  have el: "align_elem (0, 0, 0, 0) (0, 0, 0, 0) = (0, 0, 0, 0)"
    by (simp add: align_elem_def norm4_def dot4_def)
  have m: "map (align_elem (0, 0, 0, 0)) qs = qs"
    using assms(2) el by (induction qs) simp_all
  have f: "foldl add4 (0, 0, 0, 0) qs = (0, 0, 0, 0)"
    using assms(2) by (induction qs) (simp_all add: add4_def)
  have "mean4 qs = Inr (0, 0, 0, 0)"
    using assms(1) by (simp add: mean4_eq f)
  then show ?thesis
    by (simp add: mean_quaternion_matrix_def hd0 norm4_def align_loop_all m)
qed

subsection \<open>Copies of one quaternion and of its negation\<close>

lemma norm4_neg4 [simp]: "norm4 (neg4 q) = norm4 q"
  by (simp add: norm4_def neg4_def split: prod.splits)

lemma neg4_neg4 [simp]: "neg4 (neg4 q) = q"
  by (simp add: neg4_def split: prod.splits)

lemma quat_matrix_neg4 [simp]: "quat_matrix (neg4 q) = quat_matrix q"
  by (simp add: quat_matrix_def neg4_def split: prod.splits)

lemma dot4_self_unit:
  assumes "norm4 s = 1"
  shows "dot4 s s = 1" and "dot4 (neg4 s) s = - 1"
proof -
  obtain w x y z where s: "s = (w, x, y, z)" by (cases s) auto
  from assms have "sqrt (w * w + x * x + y * y + z * z) = 1" by (simp add: norm4_def s)
  then have u: "w * w + x * x + y * y + z * z = 1" by simp
  then show "dot4 s s = 1" by (simp add: dot4_def s)
  from u show "dot4 (neg4 s) s = - 1" by (simp add: dot4_def neg4_def s)
qed

lemma align_elem_unit:
  assumes "norm4 s = 1" and "p = s \<or> p = neg4 s"
  shows "align_elem s p = s"
proof -
  have d: "(case p of (w, x, y, z) \<Rightarrow> (w / 1, x / 1, y / 1, z / 1)) = p"
    by (simp split: prod.splits)
  from assms(2) have n: "norm4 p = 1" using assms(1) by auto
  from assms(2) show ?thesis
    by (auto simp: align_elem_def n Let_def dot4_self_unit [OF assms(1)] split: prod.splits)
qed

lemma foldl_add4_const:
  "\<forall>p\<in>set l. p = (w, x, y, z) \<Longrightarrow>
   foldl add4 (a, b, c, d) l
     = (a + real (length l) * w, b + real (length l) * x,
        c + real (length l) * y, d + real (length l) * z)"
  by (induction l arbitrary: a b c d) (simp_all add: add4_def algebra_simps)

lemma mean4_const:
  assumes "l \<noteq> []" and "\<forall>p\<in>set l. p = s"
  shows "mean4 l = Inr s"
proof -
  obtain w x y z where s: "s = (w, x, y, z)" by (cases s) auto
  have n: "real (length l) \<noteq> 0" using assms(1) by simp
  show ?thesis
    using n by (simp add: mean4_def foldl_add4_const [OF assms(2) [unfolded s]] qdiv_def s)
qed

lemma mean_quaternion_matrix_mixed:
  assumes unit: "norm4 q = 1" and ne: "qs \<noteq> []"
    and mix: "\<forall>p\<in>set qs. p = q \<or> p = neg4 q"
  shows "mean_quaternion_matrix qs = Inr (quat_matrix q)"
proof -
  define s where "s = hd qs"
  have sq: "s = q \<or> s = neg4 q" using ne mix by (simp add: s_def)
  then have su: "norm4 s = 1" using unit by auto
  have all: "\<forall>p\<in>set qs. p = s \<or> p = neg4 s" using mix sq by auto
  have al: "\<forall>p\<in>set (map (align_elem s) qs). p = s"
    using all align_elem_unit [OF su] by auto
  have m: "mean4 (map (align_elem s) qs) = Inr s"
    using ne al by (intro mean4_const) simp_all
  have div1: "qdiv s 1 = Inr s" by (simp add: qdiv_def split: prod.splits)
  have qm: "quat_matrix s = quat_matrix q" using sq by auto
  show ?thesis
    by (simp add: mean_quaternion_matrix_def s_def [symmetric] su div1 align_loop_all m
        quat_to_rotation_matrix_unit [OF su] qm)
qed

lemma compute_mean_rotation_returns: "\<exists>R. compute_mean_rotation svd quaternions = Inr R"
proof (cases "quaternions = []")
  case True
  then show ?thesis by (simp add: compute_mean_rotation_def)
next
  case False
  then show ?thesis
    using mean_quaternion_matrix_total [OF False]
    by (auto simp: compute_mean_rotation_def)
qed

subsection \<open>The claims on \<open>compute_mean_rotation\<close>\<close>

text \<open>
  C2. For every sequence of quaternions, unit or not, zero rows included, the matrix
  returned by \<open>compute_mean_rotation\<close> is a proper rotation: its transpose times it is
  the identity and its determinant is 1. The hypothesis is numpy's contract for the one
  call of \<open>np.linalg.svd\<close> the function makes, at the matrix it is called with.
\<close>

theorem compute_mean_rotation_proper:
  assumes "\<forall>M. quaternions \<noteq> [] \<and> mean_quaternion_matrix quaternions = Inr M \<longrightarrow> is_svd M (svd M)"
  shows "\<exists>R. compute_mean_rotation svd quaternions = Inr R \<and> proper_rotation R"
proof (cases "quaternions = []")
  case True
  then show ?thesis
    by (simp add: compute_mean_rotation_def proper_rotation_def transpose3_def eye3_def
        matmul_def det3_def)
next
  case False
  then obtain M where M: "mean_quaternion_matrix quaternions = Inr M"
    using mean_quaternion_matrix_total by blast
  with False assms have "is_svd M (svd M)" by blast
  then have "proper_rotation (orthonormalize svd M)" by (rule orthonormalize_is_svd)
  then show ?thesis using False M by (simp add: compute_mean_rotation_def)
qed

theorem compute_mean_rotation_proper_witness:
  "\<exists>R. compute_mean_rotation svd_of_orthogonal [(2, 0, 0, 0), (0, 0, 0, 0), (0, - 3, 0, 1)] = Inr R
       \<and> proper_rotation R"
proof -
  have "\<forall>M. [(2, 0, 0, 0), (0, 0, 0, 0), (0, - 3, 0, 1)] \<noteq> []
            \<and> mean_quaternion_matrix [(2, 0, 0, 0), (0, 0, 0, 0), (0, - 3, 0, 1)] = Inr M
          \<longrightarrow> is_svd M (svd_of_orthogonal M)"
    by (auto intro!: is_svd_of_orthogonal proper_rotation_orthogonal
        mean_quaternion_matrix_proper [of "[(2, 0, 0, 0), (0, 0, 0, 0), (0, - 3, 0, 1)]"])
  then show ?thesis by (rule compute_mean_rotation_proper)
qed

text \<open>
  C5. For every unit quaternion \<open>q\<close> and every non-empty sequence whose rows are each
  \<open>q\<close> or \<open>-q\<close>, \<open>compute_mean_rotation\<close> returns the matrix of
  \<open>quat_to_rotation_matrix q\<close>: the sign alignment turns every row into the first one,
  so nothing cancels in the mean. Over the reals the two matrices are equal.
\<close>

theorem compute_mean_rotation_mixed_signs:
  assumes "norm4 q = 1" and "quaternions \<noteq> []"
    and "\<forall>p\<in>set quaternions. p = q \<or> p = neg4 q"
    and "\<forall>M. quat_to_rotation_matrix q = Inr M \<longrightarrow> is_svd M (svd M)"
  shows "compute_mean_rotation svd quaternions = quat_to_rotation_matrix q
       \<and> (\<exists>M. quat_to_rotation_matrix q = Inr M)"
proof -
  have q: "quat_to_rotation_matrix q = Inr (quat_matrix q)"
    by (rule quat_to_rotation_matrix_unit [OF assms(1)])
  then have rot: "proper_rotation (quat_matrix q)" by (rule quat_to_rotation_matrix_proper)
  from q assms(4) have "is_svd (quat_matrix q) (svd (quat_matrix q))" by blast
  then have "orthonormalize svd (quat_matrix q) = quat_matrix q"
    using rot by (rule orthonormalize_rotation)
  then show ?thesis
    using assms(2) by (simp add: compute_mean_rotation_def q
        mean_quaternion_matrix_mixed [OF assms(1-3)])
qed

theorem compute_mean_rotation_mixed_signs_witness:
  "norm4 (0, 1, 0, 0) = 1
   \<and> compute_mean_rotation svd_of_orthogonal [(0, 1, 0, 0), (0, - 1, 0, 0), (0, 1, 0, 0)]
       = quat_to_rotation_matrix (0, 1, 0, 0)
   \<and> quat_to_rotation_matrix (0, 1, 0, 0) = Inr (Mat3 1 0 0  0 (- 1) 0  0 0 (- 1))"
proof -
  have u: "norm4 (0, 1, 0, 0) = 1" by (simp add: norm4_def)
  have s: "\<forall>M. quat_to_rotation_matrix (0, 1, 0, 0) = Inr M \<longrightarrow> is_svd M (svd_of_orthogonal M)"
    by (auto intro!: is_svd_of_orthogonal proper_rotation_orthogonal
        quat_to_rotation_matrix_proper)
  have m: "\<forall>p\<in>set [(0, 1, 0, 0), (0, - 1, 0, 0), (0, 1, 0, 0)].
             p = (0, 1, 0, 0) \<or> p = neg4 (0, 1, 0, 0)"
    by (simp add: neg4_def)
  have "quat_to_rotation_matrix (0, 1, 0, 0) = Inr (Mat3 1 0 0  0 (- 1) 0  0 0 (- 1))"
    by (simp add: quat_to_rotation_matrix_def qdiv_def)
  then show ?thesis
    using u compute_mean_rotation_mixed_signs [OF u _ m s] by simp
qed

text \<open>
  C10. \<open>compute_mean_rotation\<close> returns a matrix on every input: no division of the
  function has a zero divisor (a row is divided by its norm only when the norm is
  positive, the mean by its norm only when that is at least \<open>1e-12\<close>, the sum by the
  number of rows only when there is a row). A non-empty sequence of all-zero quaternions
  gives the identity matrix, \<open>np.linalg.svd\<close> keeping its contract at the identity.
\<close>

theorem compute_mean_rotation_total:
  "(\<exists>R. compute_mean_rotation svd quaternions = Inr R)
   \<and> (quaternions \<noteq> [] \<and> (\<forall>q\<in>set quaternions. q = (0, 0, 0, 0)) \<and> is_svd eye3 (svd eye3)
        \<longrightarrow> compute_mean_rotation svd quaternions = Inr eye3)"
proof
  show "\<exists>R. compute_mean_rotation svd quaternions = Inr R"
    by (rule compute_mean_rotation_returns)
next
  show "quaternions \<noteq> [] \<and> (\<forall>q\<in>set quaternions. q = (0, 0, 0, 0)) \<and> is_svd eye3 (svd eye3)
        \<longrightarrow> compute_mean_rotation svd quaternions = Inr eye3"
  proof (intro impI, elim conjE)
    assume ne: "quaternions \<noteq> []" and z: "\<forall>q\<in>set quaternions. q = (0, 0, 0, 0)"
      and svd: "is_svd eye3 (svd eye3)"
    have "orthonormalize svd eye3 = eye3"
      using svd by (rule orthonormalize_rotation) simp
    then show "compute_mean_rotation svd quaternions = Inr eye3"
      using ne by (simp add: compute_mean_rotation_def compute_mean_rotation_zeros [OF ne z])
  qed
qed

theorem compute_mean_rotation_total_witness:
  "is_svd eye3 (svd_of_orthogonal eye3)
   \<and> compute_mean_rotation svd_of_orthogonal [(0, 0, 0, 0), (0, 0, 0, 0)] = Inr eye3"
proof -
  have s: "is_svd eye3 (svd_of_orthogonal eye3)" by (simp add: is_svd_of_orthogonal)
  show ?thesis
    using s compute_mean_rotation_total [of svd_of_orthogonal "[(0, 0, 0, 0), (0, 0, 0, 0)]"]
    by simp
qed

section \<open>Properties of the plots\<close>

subsection \<open>The range filter of the combined plot\<close>

lemma index_split_on:
  "index (split_on sep s) 0 = Inr (takeWhile (\<lambda>c. c \<noteq> sep) s)"
proof (induction s)
  case Nil
  then show ?case by (simp add: index_def)
next
  case (Cons c s)
  then show ?case
    by (cases "split_on sep s") (auto simp: index_def split: if_splits)
qed

lemma py_int_error: "py_int s = Inl e \<Longrightarrow> e = ValueError"
  by (auto simp: py_int_def Let_def split: if_splits prod.splits)

lemma node_in_range_eq:
  "node_in_range n =
     (case py_int (takeWhile (\<lambda>c. c \<noteq> CHR ''_'') (drop 4 n)) of
        Inl e \<Rightarrow> Inl ValueError
      | Inr k \<Rightarrow> Inr (3 \<le> k \<and> k \<le> 12))"
  by (auto simp: node_in_range_def index_split_on dest: py_int_error split: sum.splits)

lemma set_dict_set_keys: "fst ` set (dict_set d k v) = insert k (fst ` set d)"
  by (induction d k v rule: dict_set.induct) auto

lemma filter_loop_keys:
  "\<exists>f. filter_loop mr acc = Inr f
     \<and> fst ` set f = fst ` set acc \<union> {n \<in> fst ` set mr. in_range_3_12 n}"
proof (induction mr acc rule: filter_loop.induct)
  case (1 acc)
  then show ?case by simp
next
  case (2 node_name R_mean mean_rotations acc)
  show ?case
  proof (cases "take 4 node_name = ''node''")
    case False
    with 2(3) show ?thesis by (auto simp: in_range_3_12_def)
  next
    case True
    show ?thesis
    proof (cases "py_int (takeWhile (\<lambda>c. c \<noteq> CHR ''_'') (drop 4 node_name))")
      case (Inl e)
      then have n: "node_in_range node_name = Inl ValueError" by (simp add: node_in_range_eq)
      from Inl have "\<not> in_range_3_12 node_name" by (simp add: in_range_3_12_def)
      with 2(1) [OF True n] True n show ?thesis by auto
    next
      case (Inr k)
      then have n: "node_in_range node_name = Inr (3 \<le> k \<and> k \<le> 12)"
        by (simp add: node_in_range_eq)
      from Inr True have r: "in_range_3_12 node_name \<longleftrightarrow> 3 \<le> k \<and> k \<le> 12"
        by (simp add: in_range_3_12_def)
      from 2(2) [OF True n] True n r show ?thesis
        by (auto simp: set_dict_set_keys)
    qed
  qed
qed

lemma node_in_range_examples:
  "node_in_range ''node10_1'' = Inr True" "node_in_range ''node3'' = Inr True"
  "node_in_range ''node12'' = Inr True" "node_in_range ''node2'' = Inr False"
  "node_in_range ''node13_2'' = Inr False" "node_in_range ''nodeX'' = Inl ValueError"
  "node_in_range ''node'' = Inl ValueError"
  by code_simp+

lemma combined_plot_example: "plot_combined_filtered_nodes
     [(''node2'', A), (''node3'', B), (''nodeX'', C), (''node13'', D), (''node12'', E), (''node10_1'', F), (''imu5'', G)] ''out''
   = Inr (Some \<lparr>drawn = [''node10_1'', ''node12'', ''node3''],
                  save_path = ''out/mean_headings_3d_combined_node3_to_12.png''\<rparr>)"
  by code_simp

text \<open>
  C8. The combined filtered plot draws exactly the nodes of \<open>mean_rotations\<close> whose name
  starts with \<open>node\<close> and whose text between \<open>node\<close> and the first underscore parses
  as an integer from 3 to 12. Every other name is left out, and the function returns
  without an exception on every input.
\<close>

theorem combined_plot_nodes:
  "\<exists>p. plot_combined_filtered_nodes mean_rotations output_dir = Inr p
     \<and> (\<forall>n. n \<in> set (case p of None \<Rightarrow> [] | Some f \<Rightarrow> drawn f) \<longleftrightarrow>
          n \<in> set (dict_keys mean_rotations) \<and> take 4 n = ''node''
          \<and> (\<exists>k. py_int (takeWhile (\<lambda>c. c \<noteq> CHR ''_'') (drop 4 n)) = Inr k
                 \<and> 3 \<le> k \<and> k \<le> 12))"
proof -
  obtain f where f: "filter_loop mean_rotations [] = Inr f"
    and keys: "fst ` set f = {n \<in> fst ` set mean_rotations. in_range_3_12 n}"
    using filter_loop_keys [of mean_rotations "[]"] by auto
  show ?thesis
  proof (cases "f = []")
    case True
    with f keys show ?thesis
      by (auto simp: plot_combined_filtered_nodes_def dict_keys_def in_range_3_12_def)
  next
    case False
    with f keys show ?thesis
      by (auto simp: plot_combined_filtered_nodes_def dict_keys_def in_range_3_12_def
          sorted_items_def)
  qed
qed

section \<open>Properties of the mean heading per node\<close>

lemma has_quat_cols_iff:
  "has_quat_cols df \<longleftrightarrow>
     ''qw'' \<in> fst ` set df \<and> ''qx'' \<in> fst ` set df \<and> ''qy'' \<in> fst ` set df
     \<and> ''qz'' \<in> fst ` set df"
  by (simp add: has_quat_cols_def quat_cols_def)

lemma map_of_in_keys: "k \<in> fst ` set d \<Longrightarrow> \<exists>v. map_of d k = Some v"
  by (metis map_of_eq_None_iff not_Some_eq)

lemma label_filter_nonempty:
  "c \<in> fst ` set df \<Longrightarrow> filter (\<lambda>(h, cells). h = c) df \<noteq> []"
  by (auto simp: filter_empty_conv)

lemma label_once:
  assumes "c \<in> fst ` set df" and "length (filter (\<lambda>(h, cells). h = c) df) \<le> 1"
  shows "length (filter (\<lambda>(h, cells). h = c) df) = 1"
proof -
  have "length (filter (\<lambda>(h, cells). h = c) df) \<noteq> 0"
    using label_filter_nonempty [OF assms(1)] by simp
  with assms(2) show ?thesis by linarith
qed

lemma select_columns_four:
  assumes "has_quat_cols df" and "quat_labels_once df"
  shows "\<exists>columns. select_columns df quat_cols = Inr columns \<and> length columns = 4"
proof -
  from assms have
    "length (filter (\<lambda>(h, cells). h = ''qw'') df) = 1"
    "length (filter (\<lambda>(h, cells). h = ''qx'') df) = 1"
    "length (filter (\<lambda>(h, cells). h = ''qy'') df) = 1"
    "length (filter (\<lambda>(h, cells). h = ''qz'') df) = 1"
    by (simp_all add: has_quat_cols_iff quat_labels_once_def quat_cols_def label_once)
  with assms(1) show ?thesis
    by (simp add: select_columns_def has_quat_cols_def quat_cols_def)
qed

lemma to_numpy_width: "list_all (\<lambda>r. length r = length columns) (to_numpy columns)"
  by (simp add: to_numpy_def list_all_iff)

lemma select_quaternions_four:
  assumes "has_quat_cols df" and "quat_labels_once df"
  shows "\<exists>rows. select_quaternions df = Inr rows \<and> list_all (\<lambda>r. length r = 4) rows"
proof -
  obtain columns where c: "select_columns df quat_cols = Inr columns" "length columns = 4"
    using select_columns_four [OF assms] by blast
  then show ?thesis
    using to_numpy_width [of columns] by (simp add: select_quaternions_def)
qed

lemma list_all_slice_to: "list_all P xs \<Longrightarrow> list_all P (slice_to n xs)"
  by (auto simp: slice_to_def list_all_iff dest: in_set_takeD)

lemma node_heading_returns:
  assumes "has_quat_cols df" and "quat_labels_once df"
  shows "\<exists>R a. node_heading svd n_samples df = Inr (R, a)"
proof -
  obtain rows where rows: "select_quaternions df = Inr rows"
    and four: "list_all (\<lambda>r. length r = 4) rows"
    using select_quaternions_four [OF assms] by blast
  let ?sub = "slice_to (min n_samples (int (length rows))) rows"
  have "list_all (\<lambda>r. length r = 4) ?sub" using four by (rule list_all_slice_to)
  then have a: "compute_mean_rotation_array svd ?sub
      = compute_mean_rotation svd (map quat_of_row ?sub)"
    by (simp add: compute_mean_rotation_array_def)
  obtain R where R: "compute_mean_rotation svd (map quat_of_row ?sub) = Inr R"
    using compute_mean_rotation_returns by blast
  show ?thesis
    by (simp add: node_heading_def rows a R Let_def split: prod.splits)
qed

lemma heading_loop_keys:
  assumes "\<forall>(name, df) \<in> set nd. has_quat_cols df \<longrightarrow> quat_labels_once df"
  shows "\<exists>mr' ad'. heading_loop svd n nd (mr, ad) = Inr (mr', ad')
     \<and> fst ` set mr' = fst ` set mr \<union> {name. \<exists>df. (name, df) \<in> set nd \<and> has_quat_cols df}
     \<and> fst ` set ad' = fst ` set ad \<union> {name. \<exists>df. (name, df) \<in> set nd \<and> has_quat_cols df}"
  using assms
proof (induction nd arbitrary: mr ad)
  case Nil
  then show ?case by simp
next
  case (Cons p nd)
  obtain node_name df where p: "p = (node_name, df)" by (cases p) auto
  from Cons.prems have rest: "\<forall>(name, df) \<in> set nd. has_quat_cols df \<longrightarrow> quat_labels_once df"
    by simp
  show ?case
  proof (cases "has_quat_cols df")
    case False
    with Cons.IH [OF rest, of mr ad] show ?thesis by (auto simp: p)
  next
    case True
    with Cons.prems have once: "quat_labels_once df" by (simp add: p)
    obtain R a where h: "node_heading svd n df = Inr (R, a)"
      using node_heading_returns [OF True once] by blast
    from Cons.IH [OF rest, of "dict_set mr node_name R" "dict_set ad node_name a"] True h
    show ?thesis by (auto simp: p set_dict_set_keys)
  qed
qed

lemma df_examples_once: "quat_labels_once df_full" "quat_labels_once df_short"
  by (simp_all add: quat_labels_once_def quat_cols_def df_full_def df_short_def)

lemma df_full_cols: "has_quat_cols df_full"
  by (simp add: has_quat_cols_iff df_full_def)

lemma node_heading_repeated:
  "node_heading svd n_samples df_repeated = Inl ValueError" if "1 \<le> n_samples"
proof -
  have s: "select_quaternions df_repeated = Inr [[1, 0, 0, 0, 0]]"
    by (simp add: select_quaternions_def select_columns_def quat_cols_def df_repeated_def
        to_numpy_def)
  have sl: "slice_to (min n_samples 1) [[1, 0, 0, 0, 0 :: real]] = [[1, 0, 0, 0, 0]]"
    using that by (simp add: slice_to_def min_def)
  have c: "compute_mean_rotation_array svd [[1, 0, 0, 0, 0]] = Inl ValueError"
    by (simp add: compute_mean_rotation_array_def normv_def vdiv_def align_step_rows_def
        dotv_def mean_rows_def quat_to_rotation_matrix_row_def)
  show ?thesis
    by (simp add: node_heading_def s sl c)
qed

lemma repeated_header_loaded:
  "load_node_files
     [(''node5.csv'', [(''qw'', [1]), ('' qw'', [0]), (''qx'', [0]), (''qy'', [0]), (''qz'', [0])])]
   = Inr [(''node5'', df_repeated)]"
proof -
  have "glob_match ''node*.csv'' ''node5.csv''" "splitext_root ''node5.csv'' = ''node5''"
    "strip ''qw'' = ''qw''" "strip '' qw'' = ''qw''" "strip ''qx'' = ''qx''"
    "strip ''qy'' = ''qy''" "strip ''qz'' = ''qz''"
    by code_simp+
  then show ?thesis
    by (simp add: load_node_files_def read_csv_def df_repeated_def)
qed

lemma main_repeated_header:
  "main svd script_dir
     [(''node5.csv'', [(''qw'', [1]), ('' qw'', [0]), (''qx'', [0]), (''qy'', [0]), (''qz'', [0])])]
   = Inl ValueError"
proof -
  have "has_quat_cols df_repeated" by (simp add: has_quat_cols_iff df_repeated_def)
  then show ?thesis
    by (simp add: main_def repeated_header_loaded compute_mean_heading_per_node_def
        node_heading_repeated)
qed

text \<open>
  C7, as the specification has it, fails on the code: a table that carries \<open>qw\<close> on two
  columns has the four columns, but \<open>df[quat_cols]\<close> is five columns wide and the
  unpacking \<open>w, x, y, z = q\<close> of \<open>quat_to_rotation_matrix\<close> raises \<open>ValueError\<close>, which
  nothing catches. The call on \<open>node3\<close>, a table with the four columns, and \<open>node5\<close>, the
  table with the repeated label, returns no mapping at all.
\<close>

theorem repeated_label_aborts_counterexample:
  "''qw'' \<in> fst ` set df_full \<and> ''qx'' \<in> fst ` set df_full
   \<and> ''qy'' \<in> fst ` set df_full \<and> ''qz'' \<in> fst ` set df_full
   \<and> compute_mean_heading_per_node svd_of_orthogonal
        [(''node3'', df_full), (''node5'', df_repeated)] 100 = Inl ValueError"
proof -
  have c: "has_quat_cols df_repeated" by (simp add: has_quat_cols_iff df_repeated_def)
  obtain R a where h: "node_heading svd_of_orthogonal 100 df_full = Inr (R, a)"
    using node_heading_returns [OF df_full_cols df_examples_once(1)] by blast
  have "compute_mean_heading_per_node svd_of_orthogonal
        [(''node3'', df_full), (''node5'', df_repeated)] 100 = Inl ValueError"
    by (simp add: compute_mean_heading_per_node_def df_full_cols c h node_heading_repeated)
  then show ?thesis using df_full_cols by (simp add: has_quat_cols_iff)
qed

text \<open>
  C7, amended. For every node collection (a dict, so the names differ) in which no
  table with the four columns carries one of the labels \<open>qw\<close>, \<open>qx\<close>, \<open>qy\<close>, \<open>qz\<close> on two
  columns, \<open>compute_mean_heading_per_node\<close> returns its two mappings, and a node is a key
  of the mean rotations, and of the angle triples, exactly when its table has the four
  columns: a node that lacks one is in neither mapping, a node that has all four is in
  both, and no missing column raises.
\<close>

theorem missing_columns_skip_node:
  assumes "distinct (map fst node_data)"
    and "\<forall>(node_name, df) \<in> set node_data. has_quat_cols df \<longrightarrow> quat_labels_once df"
  shows "\<exists>mean_rotations angles_data.
           compute_mean_heading_per_node svd node_data n_samples
             = Inr (mean_rotations, angles_data)
         \<and> (\<forall>(node_name, df) \<in> set node_data.
               (node_name \<in> set (dict_keys mean_rotations) \<longleftrightarrow>
                  ''qw'' \<in> fst ` set df \<and> ''qx'' \<in> fst ` set df
                  \<and> ''qy'' \<in> fst ` set df \<and> ''qz'' \<in> fst ` set df)
             \<and> (node_name \<in> set (dict_keys angles_data) \<longleftrightarrow>
                  ''qw'' \<in> fst ` set df \<and> ''qx'' \<in> fst ` set df
                  \<and> ''qy'' \<in> fst ` set df \<and> ''qz'' \<in> fst ` set df))"
proof -
  note once = assms(2)
  obtain mr ad where r: "heading_loop svd n_samples node_data ([], []) = Inr (mr, ad)"
    and kmr: "fst ` set mr = {name. \<exists>df. (name, df) \<in> set node_data \<and> has_quat_cols df}"
    and kad: "fst ` set ad = {name. \<exists>df. (name, df) \<in> set node_data \<and> has_quat_cols df}"
    using heading_loop_keys [OF once, of svd n_samples "[]" "[]"] by auto
  have uniq: "(\<exists>df'. (name, df') \<in> set node_data \<and> has_quat_cols df') \<longleftrightarrow> has_quat_cols df"
    if "(name, df) \<in> set node_data" for name df
    using that assms(1) by (metis eq_key_imp_eq_value)
  have m1: "name \<in> fst ` set mr \<longleftrightarrow> has_quat_cols df"
    if "(name, df) \<in> set node_data" for name df
    unfolding kmr using uniq [OF that] by simp
  have m2: "name \<in> fst ` set ad \<longleftrightarrow> has_quat_cols df"
    if "(name, df) \<in> set node_data" for name df
    unfolding kad using uniq [OF that] by simp
  have all: "\<forall>(node_name, df) \<in> set node_data.
      (node_name \<in> fst ` set mr \<longleftrightarrow> has_quat_cols df)
      \<and> (node_name \<in> fst ` set ad \<longleftrightarrow> has_quat_cols df)"
    using m1 m2 by blast
  show ?thesis
    apply (rule exI [of _ mr], rule exI [of _ ad])
    using r all
    by (simp add: compute_mean_heading_per_node_def dict_keys_def has_quat_cols_iff)
qed

theorem missing_columns_skip_node_witness:
  "distinct (map fst [(''node3'', df_full), (''node4'', df_short)])
   \<and> quat_labels_once df_full \<and> quat_labels_once df_short
   \<and> (\<exists>mean_rotations angles_data.
         compute_mean_heading_per_node svd_of_orthogonal
           [(''node3'', df_full), (''node4'', df_short)] 100 = Inr (mean_rotations, angles_data)
       \<and> ''node3'' \<in> set (dict_keys mean_rotations)
       \<and> ''node4'' \<notin> set (dict_keys mean_rotations)
       \<and> ''node3'' \<in> set (dict_keys angles_data)
       \<and> ''node4'' \<notin> set (dict_keys angles_data))"
proof -
  have d: "distinct (map fst [(''node3'', df_full), (''node4'', df_short)])" by simp
  have o: "\<forall>(node_name, df) \<in> set [(''node3'', df_full), (''node4'', df_short)].
      has_quat_cols df \<longrightarrow> quat_labels_once df"
    by (simp add: df_examples_once)
  from missing_columns_skip_node [OF d o, of svd_of_orthogonal 100]
  have "\<exists>mean_rotations angles_data.
         compute_mean_heading_per_node svd_of_orthogonal
           [(''node3'', df_full), (''node4'', df_short)] 100 = Inr (mean_rotations, angles_data)
       \<and> ''node3'' \<in> set (dict_keys mean_rotations)
       \<and> ''node4'' \<notin> set (dict_keys mean_rotations)
       \<and> ''node3'' \<in> set (dict_keys angles_data)
       \<and> ''node4'' \<notin> set (dict_keys angles_data)"
    by (auto simp: df_full_def df_short_def)
  with d df_examples_once show ?thesis by blast
qed

section \<open>Properties of the loader\<close>

lemma glob_match_star:
  "glob_match (CHR ''*'' # ps) s \<longleftrightarrow> (\<exists>a b. s = a @ b \<and> glob_match ps b)"
proof (induction s)
  case Nil
  then show ?case by simp
next
  case (Cons c s)
  show ?case
  proof
    assume "glob_match (CHR ''*'' # ps) (c # s)"
    then have "glob_match ps (c # s) \<or> glob_match (CHR ''*'' # ps) s" by simp
    then consider "glob_match ps (c # s)" | "glob_match (CHR ''*'' # ps) s" by blast
    then show "\<exists>a b. c # s = a @ b \<and> glob_match ps b"
    proof cases
      case 1
      then show ?thesis by (rule_tac x = "[]" in exI) simp
    next
      case 2
      with Cons obtain a b where "s = a @ b" "glob_match ps b" by blast
      then show ?thesis by (rule_tac x = "c # a" in exI) simp
    qed
  next
    assume "\<exists>a b. c # s = a @ b \<and> glob_match ps b"
    then obtain a b where ab: "c # s = a @ b" "glob_match ps b" by blast
    show "glob_match (CHR ''*'' # ps) (c # s)"
    proof (cases a)
      case Nil
      with ab have "glob_match ps (c # s)" by simp
      then show ?thesis by simp
    next
      case (Cons x a')
      with ab have "s = a' @ b" by simp
      with ab(2) Cons.IH show ?thesis by auto
    qed
  qed
qed

lemma glob_match_literal:
  "CHR ''*'' \<notin> set ps \<Longrightarrow> CHR ''?'' \<notin> set ps \<Longrightarrow> glob_match ps s \<longleftrightarrow> s = ps"
  by (induction ps s rule: glob_match.induct) auto

lemma glob_match_literal_prefix:
  "p \<noteq> CHR ''*'' \<Longrightarrow> p \<noteq> CHR ''?'' \<Longrightarrow>
   glob_match (p # ps) s \<longleftrightarrow> (\<exists>t. s = p # t \<and> glob_match ps t)"
  by (cases s) auto

lemma glob_match_node_csv:
  "glob_match ''node*.csv'' f \<longleftrightarrow> (\<exists>m. f = ''node'' @ m @ ''.csv'')"
proof -
  have "glob_match ''node*.csv'' f \<longleftrightarrow> (\<exists>t. f = ''node'' @ t \<and> glob_match ''*.csv'' t)"
    by (auto simp: glob_match_literal_prefix)
  also have "\<dots> \<longleftrightarrow> (\<exists>m. f = ''node'' @ m @ ''.csv'')"
    by (auto simp: glob_match_star glob_match_literal simp del: glob_match.simps)
  finally show ?thesis .
qed

lemma sort_three_files:
  assumes "distinct names"
    and "set names = {''node3.csv'', ''node10_1.csv'', ''nodeX.csv''}"
  shows "sort (filter (glob_match ''node*.csv'') names)
       = [''node10_1.csv'', ''node3.csv'', ''nodeX.csv'']"
proof -
  have m: "glob_match ''node*.csv'' ''node3.csv''" "glob_match ''node*.csv'' ''node10_1.csv''"
    "glob_match ''node*.csv'' ''nodeX.csv''"
    by code_simp+
  have "\<forall>f\<in>set names. glob_match ''node*.csv'' f" using assms(2) m by auto
  then have f: "filter (glob_match ''node*.csv'') names = names" by (simp add: filter_id_conv)
  have s: "sorted [''node10_1.csv'', ''node3.csv'', ''nodeX.csv'']" by code_simp
  have d: "distinct [''node10_1.csv'', ''node3.csv'', ''nodeX.csv'']" by simp
  have "sort names = [''node10_1.csv'', ''node3.csv'', ''nodeX.csv'']"
    by (rule sorted_distinct_set_unique) (use assms s d in auto)
  with f show ?thesis by simp
qed

lemma read_csv_listed:
  assumes "f \<in> set (map fst inputs)"
  shows "\<exists>df. read_csv inputs f = Inr df"
  using assms map_of_in_keys [of f inputs] by (auto simp: read_csv_def)

lemma splitext_examples:
  "splitext_root ''node10_1.csv'' = ''node10_1''" "splitext_root ''node3.csv'' = ''node3''"
  "splitext_root ''nodeX.csv'' = ''nodeX''"
  by code_simp+

lemma load_three_files:
  assumes "distinct (map fst inputs)"
    and "set (map fst inputs) = {''node3.csv'', ''node10_1.csv'', ''nodeX.csv''}"
  shows "\<exists>node_data. load_node_files inputs = Inr node_data
           \<and> dict_keys node_data = [''node10_1'', ''node3'', ''nodeX'']"
proof -
  obtain d1 where d1: "read_csv inputs ''node10_1.csv'' = Inr d1"
    using read_csv_listed [of "''node10_1.csv''" inputs] assms(2) by auto
  obtain d2 where d2: "read_csv inputs ''node3.csv'' = Inr d2"
    using read_csv_listed [of "''node3.csv''" inputs] assms(2) by auto
  obtain d3 where d3: "read_csv inputs ''nodeX.csv'' = Inr d3"
    using read_csv_listed [of "''nodeX.csv''" inputs] assms(2) by auto
  show ?thesis
    by (simp add: load_node_files_def sort_three_files [OF assms] d1 d2 d3 splitext_examples
        dict_keys_def)
qed

lemma load_no_files:
  assumes "\<forall>f\<in>set (map fst inputs). \<not> glob_match ''node*.csv'' f"
  shows "load_node_files inputs = Inl FileNotFoundError"
proof -
  from assms have "filter (glob_match ''node*.csv'') (map fst inputs) = []"
    by (simp add: filter_empty_conv)
  then show ?thesis by (simp add: load_node_files_def)
qed

lemma main_no_files:
  assumes "load_node_files inputs = Inl FileNotFoundError"
  shows "main svd script_dir inputs = Inr \<lparr>outcome = NoInputFiles, plots = []\<rparr>"
  using assms by (simp add: main_def)

subsection \<open>The loader on the three-file directory and on no file\<close>

lemma strip_examples:
  "strip ''qw'' = ''qw''" "strip ''qx'' = ''qx''" "strip ''qy'' = ''qy''" "strip ''qz'' = ''qz''"
  "strip ''QY'' = ''QY''"
  by code_simp+

lemma strip_df_full: "map (\<lambda>(c, cells). (strip c, cells)) df_full = df_full"
  by (simp add: df_full_def strip_examples)

lemma strip_df_short: "map (\<lambda>(c, cells). (strip c, cells)) df_short = df_short"
  by (simp add: df_short_def strip_examples)

lemma no_node_files_match:
  "\<not> glob_match ''node*.csv'' ''readme.txt''" "\<not> glob_match ''node*.csv'' ''node3.txt''"
  "\<not> glob_match ''node*.csv'' ''imu3.csv''"
  by code_simp+

text \<open>
  C4, as the specification has it, fails on the code: \<open>nodeX.csv\<close> matches the pattern
  \<open>node*.csv\<close> of \<open>glob.glob\<close>, so the directory of the example loads three node records.
\<close>

theorem loader_takes_nodeX_counterexample:
  "load_node_files three_files
     = Inr [(''node10_1'', df_full), (''node3'', df_full), (''nodeX'', df_short)]"
proof -
  have "sort (filter (glob_match ''node*.csv'') (map fst three_files))
      = [''node10_1.csv'', ''node3.csv'', ''nodeX.csv'']"
    by (rule sort_three_files) (auto simp: three_files_def)
  then show ?thesis
    by (simp add: load_node_files_def read_csv_def three_files_def splitext_examples
        strip_df_full strip_df_short)
qed

text \<open>
  C4, amended. When the input directory holds exactly the files \<open>node3.csv\<close>,
  \<open>node10_1.csv\<close> and \<open>nodeX.csv\<close>, the loader loads exactly three node records, named
  \<open>node10_1\<close>, \<open>node3\<close> and \<open>nodeX\<close> in this order. When no file of the directory has a
  name that starts with \<open>node\<close> and ends with \<open>.csv\<close>, the loader raises
  \<open>FileNotFoundError\<close>, and the run ends with the no-input-files diagnostic and no image.
\<close>

theorem loader_three_files_and_none:
  "(distinct (map fst inputs)
      \<and> set (map fst inputs) = {''node3.csv'', ''node10_1.csv'', ''nodeX.csv''}
    \<longrightarrow> (\<exists>node_data. load_node_files inputs = Inr node_data
            \<and> dict_keys node_data = [''node10_1'', ''node3'', ''nodeX'']))
   \<and> ((\<forall>f\<in>set (map fst inputs). \<not> (\<exists>m. f = ''node'' @ m @ ''.csv''))
    \<longrightarrow> load_node_files inputs = Inl FileNotFoundError
        \<and> main svd script_dir inputs = Inr \<lparr>outcome = NoInputFiles, plots = []\<rparr>)"
proof (intro conjI impI)
  assume "distinct (map fst inputs)
      \<and> set (map fst inputs) = {''node3.csv'', ''node10_1.csv'', ''nodeX.csv''}"
  then show "\<exists>node_data. load_node_files inputs = Inr node_data
            \<and> dict_keys node_data = [''node10_1'', ''node3'', ''nodeX'']"
    using load_three_files by blast
next
  assume a: "\<forall>f\<in>set (map fst inputs). \<not> (\<exists>m. f = ''node'' @ m @ ''.csv'')"
  then have "\<forall>f\<in>set (map fst inputs). \<not> glob_match ''node*.csv'' f"
    by (simp only: glob_match_node_csv)
  then show l: "load_node_files inputs = Inl FileNotFoundError" by (rule load_no_files)
  then show "main svd script_dir inputs = Inr \<lparr>outcome = NoInputFiles, plots = []\<rparr>"
    by (rule main_no_files)
qed

theorem loader_three_files_and_none_witness:
  "(\<exists>node_data. load_node_files three_files = Inr node_data
      \<and> dict_keys node_data = [''node10_1'', ''node3'', ''nodeX''])
   \<and> load_node_files no_node_files = Inl FileNotFoundError
   \<and> main svd_of_orthogonal ''/home/imu'' no_node_files
       = Inr \<lparr>outcome = NoInputFiles, plots = []\<rparr>"
proof -
  have d: "distinct (map fst three_files)
      \<and> set (map fst three_files) = {''node3.csv'', ''node10_1.csv'', ''nodeX.csv''}"
    by (auto simp: three_files_def)
  have n: "\<forall>f\<in>set (map fst no_node_files). \<not> (\<exists>m. f = ''node'' @ m @ ''.csv'')"
    unfolding glob_match_node_csv [symmetric]
    by (simp add: no_node_files_def no_node_files_match)
  show ?thesis
    using d n loader_three_files_and_none [of three_files svd_of_orthogonal "''/home/imu''"]
      loader_three_files_and_none [of no_node_files svd_of_orthogonal "''/home/imu''"]
    by blast
qed

section \<open>Properties of the run\<close>

lemma group_image_not_combined:
  assumes "CHR ''_'' \<notin> set g"
  shows "os_path_join a (group_image_name g) \<noteq> os_path_join a combined_image_name"
proof
  assume eq: "os_path_join a (group_image_name g) = os_path_join a combined_image_name"
  have "group_image_name g = combined_image_name"
    using eq by (auto simp: os_path_join_def group_image_name_def combined_image_name_def
        split: if_splits)
  then have "g @ ''.png'' = ''combined_node3_to_12'' @ ''.png''"
    by (simp add: group_image_name_def combined_image_name_def)
  then have "g = ''combined_node3_to_12''" by (simp only: append_same_eq)
  with assms show False by simp
qed

lemma distinct_dict_set:
  "distinct (map fst d) \<Longrightarrow> distinct (map fst (dict_set d k v))"
proof (induction d k v rule: dict_set.induct)
  case (1 k v)
  then show ?case by simp
next
  case (2 k' v' d k v)
  then show ?case by (auto simp: set_dict_set_keys)
qed

lemma group_loop_keys:
  "distinct (map fst grouped) \<Longrightarrow>
   \<exists>g. group_nodes_by_prefix_loop mr grouped = Inr g \<and> distinct (map fst g)
     \<and> fst ` set g
         = fst ` set grouped \<union> (\<lambda>n. takeWhile (\<lambda>c. c \<noteq> CHR ''_'') n) ` fst ` set mr"
proof (induction mr arbitrary: grouped)
  case Nil
  then show ?case by simp
next
  case (Cons p mr)
  obtain node_name R_mean where p: "p = (node_name, R_mean)" by (cases p) auto
  define prefix where "prefix = takeWhile (\<lambda>c. c \<noteq> CHR ''_'') node_name"
  define g1 where "g1 = (if prefix \<notin> set (dict_keys grouped) then dict_set grouped prefix []
                         else grouped)"
  have d1: "distinct (map fst g1)" using Cons.prems by (simp add: g1_def distinct_dict_set)
  have k1: "fst ` set g1 = insert prefix (fst ` set grouped)"
    by (auto simp: g1_def set_dict_set_keys dict_keys_def)
  then obtain inner where inner: "map_of g1 prefix = Some inner"
    using map_of_in_keys [of prefix g1] by auto
  define g2 where "g2 = dict_set g1 prefix (dict_set inner node_name R_mean)"
  have d2: "distinct (map fst g2)" using d1 by (simp add: g2_def distinct_dict_set)
  have k2: "fst ` set g2 = insert prefix (fst ` set grouped)"
    using k1 by (simp add: g2_def set_dict_set_keys)
  have step: "group_nodes_by_prefix_loop (p # mr) grouped = group_nodes_by_prefix_loop mr g2"
    by (simp add: p index_split_on prefix_def [symmetric] Let_def g1_def [symmetric] inner
        g2_def)
  from Cons.IH [OF d2] k2 show ?case
    unfolding step by (auto simp: p prefix_def)
qed

lemma map_insort_key: "map f (insort_key f x xs) = insort (f x) (map f xs)"
  by (induction xs) simp_all

lemma map_sort_key: "map f (sort_key f xs) = sort (map f xs)"
  by (induction xs) (simp_all add: map_insort_key)

lemma map_fst_sorted_items:
  assumes "distinct (map fst d)"
  shows "map fst (sorted_items d) = sorted_list_of_set (fst ` set d)"
proof -
  have "map fst (sort_key fst d) = sort (map fst d)"
    by (rule map_sort_key)
  also have "\<dots> = sorted_list_of_set (set (map fst d))"
    using assms by (metis distinct_remdups_id sorted_list_of_set_sort_remdups)
  finally show ?thesis by (simp add: sorted_items_def)
qed

lemma grouped_images:
  "\<exists>ps. plot_mean_frames_3d_grouped mean_rotations output_dir = Inr ps
     \<and> map save_path ps
         = map (\<lambda>g. os_path_join output_dir (group_image_name g))
             (sorted_list_of_set
                ((\<lambda>n. takeWhile (\<lambda>c. c \<noteq> CHR ''_'') n) ` set (dict_keys mean_rotations)))"
proof -
  obtain g where g: "group_nodes_by_prefix_loop mean_rotations [] = Inr g"
    and d: "distinct (map fst g)"
    and k: "fst ` set g = (\<lambda>n. takeWhile (\<lambda>c. c \<noteq> CHR ''_'') n) ` fst ` set mean_rotations"
    using group_loop_keys [of "[]" mean_rotations] by auto
  have "map save_path (map (\<lambda>(group_name, group_rotations).
            \<lparr>drawn = map fst (sorted_items group_rotations),
             save_path = os_path_join output_dir (group_image_name group_name)\<rparr>)
          (sorted_items g))
      = map (\<lambda>g. os_path_join output_dir (group_image_name g)) (map fst (sorted_items g))"
    by (simp add: case_prod_beta comp_def)
  then show ?thesis
    by (simp add: plot_mean_frames_3d_grouped_def group_nodes_by_prefix_def g
        map_fst_sorted_items [OF d] k dict_keys_def)
qed

lemma plot_combined_image:
  "\<exists>p. plot_combined_filtered_nodes mean_rotations output_dir = Inr p
     \<and> map save_path (case p of None \<Rightarrow> [] | Some f \<Rightarrow> [f])
         = (if \<exists>n\<in>set (dict_keys mean_rotations). in_range_3_12 n
            then [os_path_join output_dir combined_image_name] else [])"
proof -
  obtain f where f: "filter_loop mean_rotations [] = Inr f"
    and keys: "fst ` set f = {n \<in> fst ` set mean_rotations. in_range_3_12 n}"
    using filter_loop_keys [of mean_rotations "[]"] by auto
  have "f = [] \<longleftrightarrow> \<not> (\<exists>n\<in>set (dict_keys mean_rotations). in_range_3_12 n)"
  proof -
    have "f = [] \<longleftrightarrow> fst ` set f = {}" by simp
    also have "\<dots> \<longleftrightarrow> \<not> (\<exists>n\<in>set (dict_keys mean_rotations). in_range_3_12 n)"
      unfolding keys by (auto simp: dict_keys_def)
    finally show ?thesis .
  qed
  then show ?thesis
    by (cases "f = []") (simp_all add: plot_combined_filtered_nodes_def f)
qed

lemma main_completed:
  assumes "load_node_files inputs = Inr node_data"
    and "compute_mean_heading_per_node svd node_data 100 = Inr (mean_rotations, angles_data)"
    and "mean_rotations \<noteq> []"
  shows "\<exists>r. main svd script_dir inputs = Inr r \<and> outcome r = Completed
           \<and> images r = (if \<exists>n\<in>set (dict_keys mean_rotations). in_range_3_12 n
                          then [os_path_join script_dir combined_image_name] else [])"
proof -
  obtain p where p: "plot_combined_filtered_nodes mean_rotations script_dir = Inr p"
    and im: "map save_path (case p of None \<Rightarrow> [] | Some f \<Rightarrow> [f])
         = (if \<exists>n\<in>set (dict_keys mean_rotations). in_range_3_12 n
            then [os_path_join script_dir combined_image_name] else [])"
    using plot_combined_image [of mean_rotations script_dir] by blast
  have "main svd script_dir inputs
      = Inr \<lparr>outcome = Completed, plots = (case p of None \<Rightarrow> [] | Some f \<Rightarrow> [f])\<rparr>"
    using assms by (simp add: main_def p)
  then show ?thesis using im by (simp add: images_def)
qed

lemma load_one_node: "load_node_files one_node = Inr [(''node3'', df_full)]"
proof -
  have "glob_match ''node*.csv'' ''node3.csv''" by code_simp
  then show ?thesis
    by (simp add: load_node_files_def one_node_def read_csv_def splitext_examples
        strip_df_full)
qed

lemma splitext_more:
  "splitext_root ''node10_2.csv'' = ''node10_2''" "splitext_root ''node2.csv'' = ''node2''"
  "splitext_root ''node13.csv'' = ''node13''"
  by code_simp+

lemma in_range_examples:
  "in_range_3_12 ''node10_1''" "\<not> in_range_3_12 ''node2''" "\<not> in_range_3_12 ''node13''"
proof -
  have "py_int ''10'' = Inr 10" "py_int ''2'' = Inr 2" "py_int ''13'' = Inr 13"
    by code_simp+
  then show "in_range_3_12 ''node10_1''" "\<not> in_range_3_12 ''node2''"
    "\<not> in_range_3_12 ''node13''"
    by (simp_all add: in_range_3_12_def)
qed

lemma load_nodes_in_range:
  "load_node_files nodes_in_range
     = Inr [(''node10_1'', df_full), (''node10_2'', df_short), (''node2'', df_full)]"
proof -
  have "sort (filter (glob_match ''node*.csv'') [''node2.csv'', ''node10_1.csv'', ''node10_2.csv''])
      = [''node10_1.csv'', ''node10_2.csv'', ''node2.csv'']"
    by code_simp
  then show ?thesis
    by (simp add: load_node_files_def nodes_in_range_def read_csv_def splitext_examples
        splitext_more strip_df_full strip_df_short)
qed

lemma load_nodes_out_of_range:
  "load_node_files nodes_out_of_range
     = Inr [(''node10_2'', df_short), (''node13'', df_full), (''node2'', df_full)]"
proof -
  have "sort (filter (glob_match ''node*.csv'') [''node2.csv'', ''node13.csv'', ''node10_2.csv''])
      = [''node10_2.csv'', ''node13.csv'', ''node2.csv'']"
    by code_simp
  then show ?thesis
    by (simp add: load_node_files_def nodes_out_of_range_def read_csv_def splitext_examples
        splitext_more strip_df_full strip_df_short)
qed

lemma df_short_cols: "\<not> has_quat_cols df_short"
  by (simp add: has_quat_cols_iff df_short_def)

text \<open>
  C3, as the specification has it, fails on the code: \<open>main\<close> calls
  \<open>plot_combined_filtered_nodes\<close> only. The run on a directory with the one file
  \<open>node3.csv\<close> computes the mean rotation of \<open>node3\<close> and saves the combined image and
  nothing else: no image of the group \<open>node3\<close>.
\<close>

theorem no_group_image_counterexample:
  "main svd_of_orthogonal ''/home/imu'' one_node
     = Inr \<lparr>outcome = Completed,
            plots = [\<lparr>drawn = [''node3''],
                      save_path = ''/home/imu/mean_headings_3d_combined_node3_to_12.png''\<rparr>]\<rparr>
   \<and> ''/home/imu/mean_headings_3d_node3.png''
       \<notin> set (images \<lparr>outcome = Completed,
            plots = [\<lparr>drawn = [''node3''],
                      save_path = ''/home/imu/mean_headings_3d_combined_node3_to_12.png''\<rparr>]\<rparr>)"
proof -
  obtain R a where h: "node_heading svd_of_orthogonal 100 df_full = Inr (R, a)"
    using node_heading_returns [OF df_full_cols df_examples_once(1)] by blast
  have m: "compute_mean_heading_per_node svd_of_orthogonal [(''node3'', df_full)] 100
      = Inr ([(''node3'', R)], [(''node3'', a)])"
    by (simp add: compute_mean_heading_per_node_def df_full_cols h)
  have p: "plot_combined_filtered_nodes [(''node3'', R)] ''/home/imu''
      = Inr (Some \<lparr>drawn = [''node3''],
                    save_path = ''/home/imu/mean_headings_3d_combined_node3_to_12.png''\<rparr>)"
    by (simp add: plot_combined_filtered_nodes_def node_in_range_examples sorted_items_def
        os_path_join_def combined_image_name_def)
  show ?thesis
    by (simp add: main_def load_one_node m p images_def)
qed

text \<open>
  C3, amended. A run that loads its node files and computes at least one mean rotation
  saves the combined filtered image exactly when one of the nodes with a mean rotation is
  in the range (its name starts with \<open>node\<close> and the text up to the first underscore
  parses as an integer from 3 to 12), and saves no other image, so never an image named
  for a prefix group. One image per prefix group of these nodes (the text of a name
  before its first underscore), named \<open>mean_headings_3d_<group>.png\<close>, the groups in sorted
  order, is what \<open>plot_mean_frames_3d_grouped\<close> saves, which \<open>main\<close> does not call.
\<close>

theorem run_writes_combined_image_only:
  assumes "load_node_files inputs = Inr node_data"
    and "compute_mean_heading_per_node svd node_data 100 = Inr (mean_rotations, angles_data)"
    and "mean_rotations \<noteq> []"
  shows "(\<exists>r. main svd script_dir inputs = Inr r \<and> outcome r = Completed
            \<and> images r
                = (if \<exists>n\<in>set (dict_keys mean_rotations). take 4 n = ''node''
                         \<and> (\<exists>k. py_int (takeWhile (\<lambda>c. c \<noteq> CHR ''_'') (drop 4 n)) = Inr k
                                \<and> 3 \<le> k \<and> k \<le> 12)
                   then [os_path_join script_dir combined_image_name] else [])
            \<and> (\<forall>n. os_path_join script_dir
                       (group_image_name (takeWhile (\<lambda>c. c \<noteq> CHR ''_'') n))
                     \<notin> set (images r)))
       \<and> (\<exists>ps. plot_mean_frames_3d_grouped mean_rotations output_dir = Inr ps
            \<and> map save_path ps
                = map (\<lambda>g. os_path_join output_dir (group_image_name g))
                    (sorted_list_of_set
                       ((\<lambda>n. takeWhile (\<lambda>c. c \<noteq> CHR ''_'') n)
                          ` set (dict_keys mean_rotations))))"
proof
  obtain r where r: "main svd script_dir inputs = Inr r" and c: "outcome r = Completed"
    and im: "images r = (if \<exists>n\<in>set (dict_keys mean_rotations). in_range_3_12 n
                          then [os_path_join script_dir combined_image_name] else [])"
    using main_completed [OF assms] by blast
  have grp: "os_path_join script_dir (group_image_name (takeWhile (\<lambda>c. c \<noteq> CHR ''_'') n))
          \<notin> set (images r)" for n
  proof -
    have "CHR ''_'' \<notin> set (takeWhile (\<lambda>c. c \<noteq> CHR ''_'') n)"
      by (auto dest: set_takeWhileD)
    then show ?thesis
      using im group_image_not_combined [of "takeWhile (\<lambda>c. c \<noteq> CHR ''_'') n" script_dir]
      by (auto split: if_splits)
  qed
  show "\<exists>r. main svd script_dir inputs = Inr r \<and> outcome r = Completed
            \<and> images r
                = (if \<exists>n\<in>set (dict_keys mean_rotations). take 4 n = ''node''
                         \<and> (\<exists>k. py_int (takeWhile (\<lambda>c. c \<noteq> CHR ''_'') (drop 4 n)) = Inr k
                                \<and> 3 \<le> k \<and> k \<le> 12)
                   then [os_path_join script_dir combined_image_name] else [])
            \<and> (\<forall>n. os_path_join script_dir
                       (group_image_name (takeWhile (\<lambda>c. c \<noteq> CHR ''_'') n))
                     \<notin> set (images r))"
    using r c im grp unfolding in_range_3_12_def by blast
next
  show "\<exists>ps. plot_mean_frames_3d_grouped mean_rotations output_dir = Inr ps
            \<and> map save_path ps
                = map (\<lambda>g. os_path_join output_dir (group_image_name g))
                    (sorted_list_of_set
                       ((\<lambda>n. takeWhile (\<lambda>c. c \<noteq> CHR ''_'') n)
                          ` set (dict_keys mean_rotations)))"
    by (rule grouped_images)
qed

theorem run_writes_combined_image_only_witness:
  "(\<exists>r. main svd_of_orthogonal ''/home/imu'' nodes_in_range = Inr r \<and> outcome r = Completed
        \<and> images r = [''/home/imu/mean_headings_3d_combined_node3_to_12.png''])
   \<and> (\<exists>r. main svd_of_orthogonal ''/home/imu'' nodes_out_of_range = Inr r
        \<and> outcome r = Completed \<and> images r = [])"
proof
  let ?nd = "[(''node10_1'', df_full), (''node10_2'', df_short), (''node2'', df_full)]"
  obtain R a where h: "node_heading svd_of_orthogonal 100 df_full = Inr (R, a)"
    using node_heading_returns [OF df_full_cols df_examples_once(1)] by blast
  have c: "compute_mean_heading_per_node svd_of_orthogonal ?nd 100
      = Inr ([(''node10_1'', R), (''node2'', R)], [(''node10_1'', a), (''node2'', a)])"
    by (simp add: compute_mean_heading_per_node_def df_full_cols df_short_cols h)
  have ne: "[(''node10_1'', R), (''node2'', R)] \<noteq> []" by simp
  from run_writes_combined_image_only [OF load_nodes_in_range c ne, of "''/home/imu''"]
  obtain r where "main svd_of_orthogonal ''/home/imu'' nodes_in_range = Inr r"
    "outcome r = Completed"
    "images r = (if \<exists>n\<in>set (dict_keys [(''node10_1'', R), (''node2'', R)]). in_range_3_12 n
                 then [os_path_join ''/home/imu'' combined_image_name] else [])"
    unfolding in_range_3_12_def by blast
  then show "\<exists>r. main svd_of_orthogonal ''/home/imu'' nodes_in_range = Inr r
        \<and> outcome r = Completed
        \<and> images r = [''/home/imu/mean_headings_3d_combined_node3_to_12.png'']"
    by (simp add: dict_keys_def in_range_examples os_path_join_def combined_image_name_def)
next
  let ?nd = "[(''node10_2'', df_short), (''node13'', df_full), (''node2'', df_full)]"
  obtain R a where h: "node_heading svd_of_orthogonal 100 df_full = Inr (R, a)"
    using node_heading_returns [OF df_full_cols df_examples_once(1)] by blast
  have c: "compute_mean_heading_per_node svd_of_orthogonal ?nd 100
      = Inr ([(''node13'', R), (''node2'', R)], [(''node13'', a), (''node2'', a)])"
    by (simp add: compute_mean_heading_per_node_def df_full_cols df_short_cols h)
  have ne: "[(''node13'', R), (''node2'', R)] \<noteq> []" by simp
  from run_writes_combined_image_only [OF load_nodes_out_of_range c ne, of "''/home/imu''"]
  obtain r where "main svd_of_orthogonal ''/home/imu'' nodes_out_of_range = Inr r"
    "outcome r = Completed"
    "images r = (if \<exists>n\<in>set (dict_keys [(''node13'', R), (''node2'', R)]). in_range_3_12 n
                 then [os_path_join ''/home/imu'' combined_image_name] else [])"
    unfolding in_range_3_12_def by blast
  then show "\<exists>r. main svd_of_orthogonal ''/home/imu'' nodes_out_of_range = Inr r
        \<and> outcome r = Completed \<and> images r = []"
    by (simp add: dict_keys_def in_range_examples)
qed

section \<open>Properties of the store model\<close>

lemma align_loop_store_eq:
  "qs < length s \<Longrightarrow> i + k = length (s ! qs) \<Longrightarrow>
   align_loop_store q0 qs i k s
     = Inr (s[qs := take i (s ! qs) @ map (align_elem q0) (drop i (s ! qs))])"
proof (induction k arbitrary: i s)
  case 0
  then show ?case by (simp add: list_update_same_conv)
next
  case (Suc k)
  let ?rows = "s ! qs"
  have i: "i < length ?rows" using Suc.prems by simp
  let ?rows' = "?rows[i := align_elem q0 (?rows ! i)]"
  let ?s' = "s[qs := ?rows']"
  have l: "qs < length ?s'" using Suc.prems by simp
  have r: "?s' ! qs = ?rows'" using Suc.prems by simp
  have len: "Suc i + k = length (?s' ! qs)" using Suc.prems by (simp add: r)
  have "align_loop_store q0 qs i (Suc k) s = align_loop_store q0 qs (Suc i) k ?s'"
    by (simp add: align_step_eq [OF i])
  also have "\<dots> = Inr (?s'[qs := take (Suc i) ?rows' @ map (align_elem q0) (drop (Suc i) ?rows')])"
    using Suc.IH [OF l len] by (simp only: r)
  also have "take (Suc i) ?rows' = take i ?rows @ [align_elem q0 (?rows ! i)]"
    using i by (simp add: take_Suc_conv_app_nth)
  also have "drop (Suc i) ?rows' = drop (Suc i) ?rows" by simp
  finally show ?case using i by (simp add: Cons_nth_drop_Suc [symmetric])
qed

lemma align_loop_store_all:
  assumes "qs < length s"
  shows "align_loop_store q0 qs 0 (length (s ! qs)) s = Inr (s[qs := map (align_elem q0) (s ! qs)])"
  using align_loop_store_eq [OF assms, of 0 "length (s ! qs)" q0] by simp

lemma compute_mean_rotation_store_eq:
  assumes "quaternions < length s"
  shows "\<exists>rows. compute_mean_rotation_store svd s quaternions
           = (s @ [rows], compute_mean_rotation svd (s ! quaternions))"
proof -
  let ?q = "s ! quaternions"
  let ?s1 = "s @ [?q]"
  have n: "length s < length ?s1" by simp
  have r: "?s1 ! length s = ?q" by simp
  show ?thesis
  proof (cases "?q = []")
    case True
    then show ?thesis
      by (simp add: compute_mean_rotation_store_def np_array_def compute_mean_rotation_def)
  next
    case False
    define q0 where "q0 = (if norm4 (hd ?q) > 0
       then (case hd ?q of (w, x, y, z) \<Rightarrow> (w / norm4 (hd ?q), x / norm4 (hd ?q), y / norm4 (hd ?q), z / norm4 (hd ?q)))
       else hd ?q)"
    have q0: "(if norm4 (hd ?q) > 0 then qdiv (hd ?q) (norm4 (hd ?q)) else Inr (hd ?q)) = Inr q0"
      by (simp add: q0_def qdiv_nonzero)
    have loop: "align_loop_store q0 (length s) 0 (length ?q) ?s1
        = Inr (s @ [map (align_elem q0) ?q])"
      using align_loop_store_all [OF n, of q0] by (simp add: r)
    show ?thesis
      using False
      by (simp add: compute_mean_rotation_store_def np_array_def compute_mean_rotation_def
          mean_quaternion_matrix_def Let_def q0 loop align_loop_all and_then_def
          split: sum.splits)
  qed
qed

lemma fresh_array_is_written:
  "fst (compute_mean_rotation_store svd [[(2, 0, 0, 0), (0, - 2, 0, 0), (- 2, 0, 0, 0)]] 0)
     = [[(2, 0, 0, 0), (0, - 2, 0, 0), (- 2, 0, 0, 0)], [(1, 0, 0, 0), (0, - 1, 0, 0), (1, 0, 0, 0)]]"
  by (simp add: compute_mean_rotation_store_def np_array_def norm4_def qdiv_def
      align_step_def dot4_def neg4_def numeral_3_eq_3 split: sum.splits)

text \<open>
  C9. \<open>compute_mean_rotation\<close> never modifies its input: after the call the array at the
  address it was given has the rows it had before, as has every array that existed before
  the call. The function works on one fresh array, the copy made by \<open>np.array\<close>, and its
  result is that of the value model on the rows of the input.
\<close>

theorem compute_mean_rotation_keeps_input:
  assumes "quaternions < length s"
  shows "\<exists>s' r. compute_mean_rotation_store svd s quaternions = (s', r)
           \<and> s' ! quaternions = s ! quaternions
           \<and> take (length s) s' = s \<and> length s' = Suc (length s)
           \<and> r = compute_mean_rotation svd (s ! quaternions)"
proof -
  obtain rows where "compute_mean_rotation_store svd s quaternions
           = (s @ [rows], compute_mean_rotation svd (s ! quaternions))"
    using compute_mean_rotation_store_eq [OF assms] by blast
  then show ?thesis using assms by (simp add: nth_append)
qed

theorem compute_mean_rotation_keeps_input_witness:
  "(0::nat) < length [[(2, 0, 0, 0), (0, - 3, 0, 0)]]
   \<and> (\<exists>s' r. compute_mean_rotation_store svd_of_orthogonal [[(2, 0, 0, 0), (0, - 3, 0, 0)]] 0
                = (s', r)
          \<and> s' ! 0 = [(2, 0, 0, 0), (0, - 3, 0, 0)])"
  using compute_mean_rotation_keeps_input [of 0 "[[(2, 0, 0, 0), (0, - 3, 0, 0)]]" svd_of_orthogonal]
  by auto

end
